theory Spec2Isabelle
  imports Main "HOL-Library.Word"
begin

unbundle bit_operations_syntax

section \<open>Shared data model\<close>

type_synonym byte = "8 word"
type_synonym bytes = "byte list"
type_synonym uint32 = "32 word"
type_synonym uint64 = "64 word"
type_synonym DiskFileNum = uint64
type_synonym ShortAttribute = "8 word"

text \<open>
  Errors are values. \<open>Corruption\<close> is \<open>base.CorruptionErrorf\<close>, \<open>AssertionFailed\<close> is
  \<open>errors.AssertionFailedf\<close>, \<open>Panic\<close> is a Go panic (explicit or an out-of-range slice
  expression), \<open>External\<close> is an error handed back by a collaborator (object storage, the
  sstable writer, a value fetch, a user callback) and \<open>Wrapped\<close> is \<open>errors.Wrap\<close>.
\<close>

datatype error =
    Corruption string
  | AssertionFailed string
  | Panic string
  | External string
  | Wrapped string error

text \<open>Internal keys: (user key, sequence number, kind).\<close>

datatype InternalKeyKind =
    InternalKeyKindDelete
  | InternalKeyKindSet
  | InternalKeyKindMerge
  | InternalKeyKindSingleDelete
  | InternalKeyKindRangeDelete
  | InternalKeyKindRangeKeySet
  | InternalKeyKindRangeKeyUnset
  | InternalKeyKindRangeKeyDelete

record InternalKey =
  UserKey :: bytes
  SeqNum :: uint64
  Kind :: InternalKeyKind

text \<open>
  Modelled from the spec: \<open>base.InternalKV\<close> with its \<open>Value\<close>, \<open>IsBlobValueHandle\<close> and
  \<open>LazyValue\<close> (package internal/base, not among the sources), as far as \<open>Add\<close> reads them.
  "Already-separated values are copied by reference [...] rather than re-fetched;
  already-inline values pass through": a value is either held in \<open>ValueOrHandle\<close> (no
  fetcher) or must be fetched, and it is a blob handle when its fetcher names a blob file.
  \<open>Fetch\<close> is the outcome of the fetch (the value and whether the caller owns the returned
  buffer, or the error), which is what \<open>kv.Value(buf)\<close> hands back.
\<close>

record AttributeAndLen =
  ValueLen :: uint32
  ShortAttr :: ShortAttribute

record LazyFetcher =
  Fetch :: "error + (bytes \<times> bool)"
  Attribute :: AttributeAndLen
  BlobFileNum :: DiskFileNum

record LazyValue =
  ValueOrHandle :: bytes
  Fetcher :: "LazyFetcher option"

record InternalKV =
  kv_K :: InternalKey
  kv_V :: LazyValue

definition InternalKV_Value :: "InternalKV \<Rightarrow> error + (bytes \<times> bool)" where
  "InternalKV_Value kv =
     (case Fetcher (kv_V kv) of
        None \<Rightarrow> Inr (ValueOrHandle (kv_V kv), False)
      | Some f \<Rightarrow> Fetch f)"

definition IsBlobValueHandle :: "LazyValue \<Rightarrow> bool" where
  "IsBlobValueHandle v =
     (case Fetcher v of None \<Rightarrow> False | Some f \<Rightarrow> 0 < BlobFileNum f)"

text \<open>Blob handles as stored in an sstable.\<close>

record HandleSuffix =
  hs_BlockNum :: uint32
  hs_OffsetInBlock :: uint32

record InlineHandle =
  ReferenceIndex :: uint32
  ih_ValueLen :: uint32
  ih_HandleSuffix :: HandleSuffix

text \<open>
  \<open>sstable.RawWriter\<close> is an interface. The model records the entries the writer accepted,
  in order; \<open>tw_fails\<close> decides, from the entries accepted so far and the entry offered,
  whether the writer rejects the call (and with which error). A rejected entry is not
  recorded.
\<close>

datatype tw_entry =
    TwAdd InternalKey bytes bool
  | TwAddWithBlobHandle InternalKey InlineHandle ShortAttribute bool

record RawWriter =
  tw_entries :: "tw_entry list"
  tw_fails :: "tw_entry list \<Rightarrow> tw_entry \<Rightarrow> error option"

definition tw_call :: "RawWriter \<Rightarrow> tw_entry \<Rightarrow> error + RawWriter" where
  "tw_call tw e =
     (case tw_fails tw (tw_entries tw) e of
        Some err \<Rightarrow> Inl err
      | None \<Rightarrow> Inr (tw\<lparr>tw_entries := tw_entries tw @ [e]\<rparr>))"

definition tw_Add :: "RawWriter \<Rightarrow> InternalKey \<Rightarrow> bytes \<Rightarrow> bool \<Rightarrow> error + RawWriter" where
  "tw_Add tw k v forceObsolete = tw_call tw (TwAdd k v forceObsolete)"

definition tw_AddWithBlobHandle ::
  "RawWriter \<Rightarrow> InternalKey \<Rightarrow> InlineHandle \<Rightarrow> ShortAttribute \<Rightarrow> bool \<Rightarrow> error + RawWriter" where
  "tw_AddWithBlobHandle tw k h attr forceObsolete =
     tw_call tw (TwAddWithBlobHandle k h attr forceObsolete)"

fun is_blob_entry :: "tw_entry \<Rightarrow> bool" where
  "is_blob_entry (TwAdd k v fo) = False"
| "is_blob_entry (TwAddWithBlobHandle k h a fo) = True"

fun entry_refidx :: "tw_entry \<Rightarrow> uint32 option" where
  "entry_refidx (TwAdd k v fo) = None"
| "entry_refidx (TwAddWithBlobHandle k h a fo) = Some (ReferenceIndex h)"

section \<open>Value separation: writeNewBlobFiles\<close>

record Comparer =
  Split :: "bytes \<Rightarrow> nat"
  Compare :: "bytes \<Rightarrow> bytes \<Rightarrow> int"

definition Split_Prefix :: "Comparer \<Rightarrow> bytes \<Rightarrow> bytes" where
  "Split_Prefix c k = take (Split c k) k"

text \<open>
  Modelled from the spec: \<open>UserKeyPrefixBound\<close> and its \<open>IsEmpty\<close> (declared with the options,
  not among the sources): "a configured 'must stay in place' key-prefix range", here the
  prefixes of \<open>[Lower, Upper)\<close>; no range is configured when both ends are empty.
\<close>

record UserKeyPrefixBound =
  Lower :: bytes
  Upper :: bytes

definition UserKeyPrefixBound_IsEmpty :: "UserKeyPrefixBound \<Rightarrow> bool" where
  "UserKeyPrefixBound_IsEmpty b = (length (Lower b) = 0 \<and> length (Upper b) = 0)"

record ObjectMetadata =
  om_DiskFileNum :: DiskFileNum

text \<open>
  Modelled from the spec: \<open>blob.FileWriter\<close> (package sstable/blob, not among the sources).
  "Blob file: append-only value store; values addressed by (block number, offset-in-block)
  pairs plus a value-length"; "blob files are single-writer, append-only, and closed exactly
  once per output, yielding accumulated statistics (uncompressed value bytes, file length)".
  Where a value lands, how long the closed file is and whether closing fails depend on the
  writer options (block size, compression) and on storage; they are fields of the options.
\<close>

record FileWriterOptions =
  fwo_locate :: "bytes list \<Rightarrow> bytes \<Rightarrow> uint32 \<times> uint32"
  fwo_close :: "bytes list \<Rightarrow> error + uint64"

record blob_Handle =
  bh_FileNum :: DiskFileNum
  bh_BlockNum :: uint32
  bh_OffsetInBlock :: uint32
  bh_ValueLen :: uint32

record FileWriter =
  fw_fileNum :: DiskFileNum
  fw_opts :: FileWriterOptions
  fw_values :: "bytes list"

record FileWriterStats =
  UncompressedValueBytes :: uint64
  FileLen :: uint64

definition NewFileWriter :: "DiskFileNum \<Rightarrow> FileWriterOptions \<Rightarrow> FileWriter" where
  "NewFileWriter fn opts = \<lparr>fw_fileNum = fn, fw_opts = opts, fw_values = []\<rparr>"

definition FileWriter_AddValue :: "FileWriter \<Rightarrow> bytes \<Rightarrow> blob_Handle \<times> FileWriter" where
  "FileWriter_AddValue w v =
     (let (blk, off) = fwo_locate (fw_opts w) (fw_values w) v
      in (\<lparr>bh_FileNum = fw_fileNum w, bh_BlockNum = blk, bh_OffsetInBlock = off,
            bh_ValueLen = word_of_nat (length v)\<rparr>,
          w\<lparr>fw_values := fw_values w @ [v]\<rparr>))"

definition FileWriter_Close :: "FileWriter \<Rightarrow> error + FileWriterStats" where
  "FileWriter_Close w =
     (case fwo_close (fw_opts w) (fw_values w) of
        Inl e \<Rightarrow> Inl e
      | Inr n \<Rightarrow> Inr \<lparr>UncompressedValueBytes = word_of_nat (sum_list (map length (fw_values w))),
                     FileLen = n\<rparr>)"

text \<open>
  The struct \<open>writeNewBlobFiles\<close>. \<open>newBlobObject\<close> asks object storage for a new blob
  object; the model passes it the objects created so far (the state of the provider), and
  \<open>wnbf_Add\<close> threads that list. \<open>writer\<close> is \<open>None\<close> for Go's nil.
\<close>

record writeNewBlobFiles =
  comparer :: Comparer
  newBlobObject :: "ObjectMetadata list \<Rightarrow> error + ObjectMetadata"
  shortAttrExtractor :: "(bytes \<Rightarrow> nat \<Rightarrow> bytes \<Rightarrow> error + ShortAttribute) option"
  writerOpts :: FileWriterOptions
  minimumSize :: int
  requiredInPlaceValueBound :: UserKeyPrefixBound
  writer :: "FileWriter option"
  objMeta :: ObjectMetadata
  wn_buf :: bytes

text \<open>What a call leaves behind: the struct, the provider's objects, the sstable writer, the error.\<close>

type_synonym wnbf_result = "writeNewBlobFiles \<times> ObjectMetadata list \<times> RawWriter \<times> error option"

definition wnbf_inline :: "writeNewBlobFiles \<Rightarrow> ObjectMetadata list \<Rightarrow> RawWriter \<Rightarrow>
    InternalKey \<Rightarrow> bytes \<Rightarrow> bool \<Rightarrow> wnbf_result" where
  "wnbf_inline vs objs tw k v forceObsolete =
     (case tw_Add tw k v forceObsolete of
        Inl e \<Rightarrow> (vs, objs, tw, Some e)
      | Inr tw' \<Rightarrow> (vs, objs, tw', None))"

text \<open>Lines 107-154: the value is separated.\<close>

definition wnbf_separate :: "writeNewBlobFiles \<Rightarrow> ObjectMetadata list \<Rightarrow> RawWriter \<Rightarrow>
    InternalKey \<Rightarrow> bytes \<Rightarrow> bool \<Rightarrow> wnbf_result" where
  "wnbf_separate vs objs tw k v forceObsolete =
     (case (case shortAttrExtractor vs of
              None \<Rightarrow> Inr 0
            | Some ex \<Rightarrow> ex (UserKey k) (Split (comparer vs) (UserKey k)) v) of
        Inl e \<Rightarrow> (vs, objs, tw, Some e)
      | Inr shortAttr \<Rightarrow>
         (case (case writer vs of
                  Some w \<Rightarrow> Inr (vs, objs, w)
                | None \<Rightarrow>
                   (case newBlobObject vs objs of
                      Inl e \<Rightarrow> Inl e
                    | Inr om \<Rightarrow>
                       Inr (vs\<lparr>objMeta := om,
                               writer := Some (NewFileWriter (om_DiskFileNum om) (writerOpts vs))\<rparr>,
                            objs @ [om],
                            NewFileWriter (om_DiskFileNum om) (writerOpts vs)))) of
            Inl e \<Rightarrow> (vs, objs, tw, Some e)
          | Inr (vs1, objs1, w) \<Rightarrow>
             (let (handle, w') = FileWriter_AddValue w v;
                  vs2 = vs1\<lparr>writer := Some w'\<rparr>;
                  inlineHandle = \<lparr>ReferenceIndex = 0, ih_ValueLen = bh_ValueLen handle,
                     ih_HandleSuffix = \<lparr>hs_BlockNum = bh_BlockNum handle,
                                         hs_OffsetInBlock = bh_OffsetInBlock handle\<rparr>\<rparr>
              in case tw_AddWithBlobHandle tw k inlineHandle shortAttr forceObsolete of
                   Inl e \<Rightarrow> (vs2, objs1, tw, Some e)
                 | Inr tw' \<Rightarrow> (vs2, objs1, tw', None))))"

text \<open>
  The in-place test of lines 85-105, on the fetched value \<open>v\<close>: the three reasons for which
  \<open>Add\<close> hands the value to \<open>tw.Add\<close>.
\<close>

definition too_small :: "writeNewBlobFiles \<Rightarrow> bytes \<Rightarrow> bool" where
  "too_small vs v = (int (length v) < minimumSize vs)"

definition within_required_in_place_bound :: "writeNewBlobFiles \<Rightarrow> bytes \<Rightarrow> bool" where
  "within_required_in_place_bound vs userKey =
     (\<not> UserKeyPrefixBound_IsEmpty (requiredInPlaceValueBound vs) \<and>
      \<not> Compare (comparer vs) (Upper (requiredInPlaceValueBound vs))
            (Split_Prefix (comparer vs) userKey) \<le> 0 \<and>
      Compare (comparer vs) (Split_Prefix (comparer vs) userKey)
            (Lower (requiredInPlaceValueBound vs)) \<ge> 0)"

definition wnbf_Add :: "writeNewBlobFiles \<Rightarrow> ObjectMetadata list \<Rightarrow> RawWriter \<Rightarrow>
    InternalKV \<Rightarrow> bool \<Rightarrow> wnbf_result" where
  "wnbf_Add vs objs tw kv forceObsolete =
     (case InternalKV_Value kv of
        Inl e \<Rightarrow> (vs, objs, tw, Some e)
      | Inr (v, callerOwned) \<Rightarrow>
         (let vs = (if callerOwned then vs\<lparr>wn_buf := take 0 v\<rparr> else vs) in
          if int (length v) < minimumSize vs then
            wnbf_inline vs objs tw (kv_K kv) v forceObsolete
          else if Kind (kv_K kv) = InternalKeyKindMerge then
            wnbf_inline vs objs tw (kv_K kv) v forceObsolete
          else if \<not> UserKeyPrefixBound_IsEmpty (requiredInPlaceValueBound vs) then
            (let kPrefix = Split_Prefix (comparer vs) (UserKey (kv_K kv)) in
             if Compare (comparer vs) (Upper (requiredInPlaceValueBound vs)) kPrefix \<le> 0 then
               wnbf_separate (vs\<lparr>requiredInPlaceValueBound := \<lparr>Lower = [], Upper = []\<rparr>\<rparr>)
                 objs tw (kv_K kv) v forceObsolete
             else if Compare (comparer vs) kPrefix (Lower (requiredInPlaceValueBound vs)) \<ge> 0 then
               wnbf_inline vs objs tw (kv_K kv) v forceObsolete
             else
               wnbf_separate vs objs tw (kv_K kv) v forceObsolete)
          else
            wnbf_separate vs objs tw (kv_K kv) v forceObsolete))"

text \<open>The compaction loop: values are added in order, and the first error stops the output.\<close>

fun wnbf_Adds :: "writeNewBlobFiles \<Rightarrow> ObjectMetadata list \<Rightarrow> RawWriter \<Rightarrow>
    (InternalKV \<times> bool) list \<Rightarrow> wnbf_result" where
  "wnbf_Adds vs objs tw [] = (vs, objs, tw, None)"
| "wnbf_Adds vs objs tw ((kv, forceObsolete) # rest) =
     (case wnbf_Add vs objs tw kv forceObsolete of
        (vs', objs', tw', Some e) \<Rightarrow> (vs', objs', tw', Some e)
      | (vs', objs', tw', None) \<Rightarrow> wnbf_Adds vs' objs' tw' rest)"

text \<open>Blob file metadata, blob references and what \<open>FinishOutput\<close> returns.\<close>

record BlobFileMetadata =
  bm_FileNum :: DiskFileNum
  bm_Size :: uint64
  bm_ValueSize :: uint64
  bm_CreationTime :: uint64

record BlobReference =
  br_FileNum :: DiskFileNum
  br_ValueSize :: uint64
  br_Metadata :: "BlobFileMetadata option"

record ValueSeparationMetadata =
  BlobReferences :: "BlobReference list"
  BlobReferenceSize :: uint64
  BlobReferenceDepth :: int
  BlobFileStats :: FileWriterStats
  BlobFileObject :: ObjectMetadata
  BlobFileMetadata :: "BlobFileMetadata option"

text \<open>The zero value \<open>compact.ValueSeparationMetadata{}\<close>.\<close>

definition empty_ValueSeparationMetadata :: ValueSeparationMetadata where
  "empty_ValueSeparationMetadata =
     \<lparr>BlobReferences = [], BlobReferenceSize = 0, BlobReferenceDepth = 0,
      BlobFileStats = \<lparr>UncompressedValueBytes = 0, FileLen = 0\<rparr>,
      BlobFileObject = \<lparr>om_DiskFileNum = 0\<rparr>, BlobFileMetadata = None\<rparr>"

text \<open>\<open>now\<close> is \<open>uint64(time.Now().Unix())\<close>, read from the clock by the source.\<close>

definition wnbf_FinishOutput :: "writeNewBlobFiles \<Rightarrow> uint64 \<Rightarrow>
    writeNewBlobFiles \<times> (error + ValueSeparationMetadata)" where
  "wnbf_FinishOutput vs now =
     (case writer vs of
        None \<Rightarrow> (vs, Inr empty_ValueSeparationMetadata)
      | Some w \<Rightarrow>
         (case FileWriter_Close w of
            Inl e \<Rightarrow> (vs, Inl e)
          | Inr stats \<Rightarrow>
             (vs\<lparr>writer := None\<rparr>,
              Inr \<lparr>BlobReferences =
                     [\<lparr>br_FileNum = om_DiskFileNum (objMeta vs),
                       br_ValueSize = UncompressedValueBytes stats,
                       br_Metadata = None\<rparr>],
                   BlobReferenceSize = UncompressedValueBytes stats,
                   BlobReferenceDepth = 1,
                   BlobFileStats = stats,
                   BlobFileObject = objMeta vs,
                   BlobFileMetadata =
                     Some \<lparr>bm_FileNum = om_DiskFileNum (objMeta vs), bm_Size = FileLen stats,
                           bm_ValueSize = UncompressedValueBytes stats,
                           bm_CreationTime = now\<rparr>\<rparr>)))"

text \<open>
  The words used to state the properties of \<open>writeNewBlobFiles\<close>: the condition under which a
  value stays in place, the values appended so far to the open blob file, the relation
  between the open writer and the objects created since the output began, and the handles
  of a list of sstable entries all carrying reference index 0.
\<close>

definition in_place_condition :: "writeNewBlobFiles \<Rightarrow> InternalKey \<Rightarrow> bytes \<Rightarrow> bool" where
  "in_place_condition vs k v =
     (too_small vs v \<or> Kind k = InternalKeyKindMerge \<or>
      within_required_in_place_bound vs (UserKey k))"

definition blob_values :: "writeNewBlobFiles \<Rightarrow> bytes list" where
  "blob_values vs = (case writer vs of None \<Rightarrow> [] | Some w \<Rightarrow> fw_values w)"

definition blob_file_state :: "ObjectMetadata list \<Rightarrow> writeNewBlobFiles \<Rightarrow> ObjectMetadata list \<Rightarrow> bool" where
  "blob_file_state objs0 vs objs =
     (case writer vs of
        None \<Rightarrow> objs = objs0
      | Some w \<Rightarrow> objs = objs0 @ [objMeta vs] \<and> fw_fileNum w = om_DiskFileNum (objMeta vs) \<and>
                  fw_values w \<noteq> [])"

definition handles_index_zero :: "tw_entry list \<Rightarrow> bool" where
  "handles_index_zero es = (\<forall>e\<in>set es. entry_refidx e = None \<or> entry_refidx e = Some 0)"

text \<open>
  An instance to run the model on: the default comparer (the ordering of Go's
  \<open>bytes.Compare\<close>, every key its own prefix), a blob writer that puts all values in block 0,
  an object provider that never fails, an sstable writer that accepts every entry, and
  values held in place.
\<close>

fun bytes_Compare :: "bytes \<Rightarrow> bytes \<Rightarrow> int" where
  "bytes_Compare [] [] = 0"
| "bytes_Compare [] (y # ys) = - 1"
| "bytes_Compare (x # xs) [] = 1"
| "bytes_Compare (x # xs) (y # ys) =
     (if x < y then - 1 else if y < x then 1 else bytes_Compare xs ys)"

definition DefaultComparer :: Comparer where
  "DefaultComparer = \<lparr>Split = length, Compare = bytes_Compare\<rparr>"

definition example_writerOpts :: FileWriterOptions where
  "example_writerOpts =
     \<lparr>fwo_locate = (\<lambda>vals v. (0, word_of_nat (sum_list (map length vals)))),
      fwo_close = (\<lambda>vals. Inr (word_of_nat (sum_list (map length vals)) + 32))\<rparr>"

definition example_writeNewBlobFiles :: writeNewBlobFiles where
  "example_writeNewBlobFiles =
     \<lparr>comparer = DefaultComparer,
      newBlobObject = (\<lambda>objs. Inr \<lparr>om_DiskFileNum = word_of_nat (length objs) + 7\<rparr>),
      shortAttrExtractor = None,
      writerOpts = example_writerOpts,
      minimumSize = 3,
      requiredInPlaceValueBound = \<lparr>Lower = [97], Upper = [99]\<rparr>,
      writer = None,
      objMeta = \<lparr>om_DiskFileNum = 0\<rparr>,
      wn_buf = []\<rparr>"

definition example_RawWriter :: RawWriter where
  "example_RawWriter = \<lparr>tw_entries = [], tw_fails = (\<lambda>es e. None)\<rparr>"

definition in_place_kv :: "bytes \<Rightarrow> InternalKeyKind \<Rightarrow> bytes \<Rightarrow> InternalKV" where
  "in_place_kv k kind v =
     \<lparr>kv_K = \<lparr>UserKey = k, SeqNum = 1, Kind = kind\<rparr>,
      kv_V = \<lparr>ValueOrHandle = v, Fetcher = None\<rparr>\<rparr>"

section \<open>Value separation: preserveBlobReferences\<close>

record preserveBlobReferences =
  inputBlobMetadatas :: "BlobFileMetadata list"
  outputBlobReferenceDepth :: int
  pb_buf :: bytes
  currReferences :: "BlobReference list"
  totalValueSize :: uint64

text \<open>
  Two things \<open>Add\<close> takes from packages that are not among the sources are parameters of
  the model: the build-tag constant \<open>invariants.Enabled\<close> and the decoder
  \<open>blob.DecodeHandleSuffix\<close>.
\<close>

record build_deps =
  invariants_Enabled :: bool
  DecodeHandleSuffix :: "bytes \<Rightarrow> HandleSuffix"

text \<open>
  \<open>slices.BinarySearchFunc\<close> of the Go standard library, with the comparison
  \<open>cmp.Compare(bm.FileNum, fn)\<close>: the loop keeps \<open>i \<le> h < j\<close> and answers \<open>i\<close>.
\<close>

function BinarySearchFunc_loop :: "BlobFileMetadata list \<Rightarrow> DiskFileNum \<Rightarrow> nat \<Rightarrow> nat \<Rightarrow> nat" where
  "BinarySearchFunc_loop x target i j =
     (if i < j then
        (let h = (i + j) div 2 in
         if bm_FileNum (x ! h) < target then BinarySearchFunc_loop x target (h + 1) j
         else BinarySearchFunc_loop x target i h)
      else i)"
  by pat_completeness auto
termination
  by (relation "measure (\<lambda>(x, target, i, j). j - i)") auto

declare BinarySearchFunc_loop.simps [simp del]

definition findInputBlobMetadata :: "preserveBlobReferences \<Rightarrow> DiskFileNum \<Rightarrow> nat \<times> bool" where
  "findInputBlobMetadata vs fn =
     (let n = length (inputBlobMetadatas vs);
          i = BinarySearchFunc_loop (inputBlobMetadatas vs) fn 0 n
      in (i, i < n \<and> bm_FileNum (inputBlobMetadatas vs ! i) = fn))"

text \<open>The loop of lines 255-262: the index of the first current reference to \<open>fn\<close>.\<close>

fun scanReferences :: "BlobReference list \<Rightarrow> DiskFileNum \<Rightarrow> nat \<Rightarrow> nat option" where
  "scanReferences [] fn refIdx = None"
| "scanReferences (r # rs) fn refIdx =
     (if br_FileNum r = fn then Some refIdx else scanReferences rs fn (Suc refIdx))"

type_synonym pbr_result = "preserveBlobReferences \<times> RawWriter \<times> error option"

text \<open>Lines 233-247: a value that is not a blob handle is fetched and written through \<open>Add\<close>.\<close>

definition pbr_passthrough :: "preserveBlobReferences \<Rightarrow> RawWriter \<Rightarrow> InternalKV \<Rightarrow> bool \<Rightarrow>
    pbr_result" where
  "pbr_passthrough vs tw kv forceObsolete =
     (case InternalKV_Value kv of
        Inl e \<Rightarrow> (vs, tw, Some e)
      | Inr (v, callerOwned) \<Rightarrow>
         (let vs = (if callerOwned then vs\<lparr>pb_buf := take 0 v\<rparr> else vs) in
          case tw_Add tw (kv_K kv) v forceObsolete of
            Inl e \<Rightarrow> (vs, tw, Some e)
          | Inr tw' \<Rightarrow> (vs, tw', None)))"

text \<open>Lines 253-275: the reference index of blob file \<open>fn\<close>, appending a reference if new.\<close>

definition pbr_reference :: "preserveBlobReferences \<Rightarrow> DiskFileNum \<Rightarrow>
    error + (preserveBlobReferences \<times> nat)" where
  "pbr_reference vs fn =
     (case scanReferences (currReferences vs) fn 0 of
        Some refIdx \<Rightarrow> Inr (vs, refIdx)
      | None \<Rightarrow>
         (let (idx, found) = findInputBlobMetadata vs fn in
          if \<not> found then
            Inl (AssertionFailed ''pebble: blob file not found among input sstables'')
          else
            Inr (vs\<lparr>currReferences := currReferences vs @
                      [\<lparr>br_FileNum = fn, br_ValueSize = 0,
                        br_Metadata = Some (inputBlobMetadatas vs ! idx)\<rparr>]\<rparr>,
                 length (currReferences vs))))"

text \<open>Lines 277-279: the check compiled in under the invariants build tag.\<close>

definition wrong_reference_index :: "preserveBlobReferences \<Rightarrow> nat \<Rightarrow> DiskFileNum \<Rightarrow> error option" where
  "wrong_reference_index vs refIdx fn =
     (case br_Metadata (currReferences vs ! refIdx) of
        None \<Rightarrow> Some (Panic ''nil pointer dereference'')
      | Some m \<Rightarrow> if bm_FileNum m \<noteq> fn then Some (Panic ''wrong reference index'') else None)"

text \<open>Lines 281-295: write the handle, then account for the value's length.\<close>

definition pbr_write_handle :: "build_deps \<Rightarrow> preserveBlobReferences \<Rightarrow> RawWriter \<Rightarrow> InternalKV \<Rightarrow>
    LazyFetcher \<Rightarrow> nat \<Rightarrow> bool \<Rightarrow> pbr_result" where
  "pbr_write_handle deps vs tw kv fetcher refIdx forceObsolete =
     (let handleSuffix = DecodeHandleSuffix deps (ValueOrHandle (kv_V kv));
          inlineHandle = \<lparr>ReferenceIndex = word_of_nat refIdx,
                          ih_ValueLen = ValueLen (Attribute fetcher),
                          ih_HandleSuffix = handleSuffix\<rparr>
      in case tw_AddWithBlobHandle tw (kv_K kv) inlineHandle (ShortAttr (Attribute fetcher))
                forceObsolete of
           Inl e \<Rightarrow> (vs, tw, Some e)
         | Inr tw' \<Rightarrow>
            (vs\<lparr>currReferences := (currReferences vs)
                    [refIdx := (currReferences vs ! refIdx)
                       \<lparr>br_ValueSize := br_ValueSize (currReferences vs ! refIdx) +
                                          ucast (ValueLen (Attribute fetcher))\<rparr>],
                totalValueSize := totalValueSize vs + ucast (ValueLen (Attribute fetcher))\<rparr>,
             tw', None))"

definition pbr_Add :: "build_deps \<Rightarrow> preserveBlobReferences \<Rightarrow> RawWriter \<Rightarrow> InternalKV \<Rightarrow> bool \<Rightarrow>
    pbr_result" where
  "pbr_Add deps vs tw kv forceObsolete =
     (if \<not> IsBlobValueHandle (kv_V kv) then pbr_passthrough vs tw kv forceObsolete
      else
        (case Fetcher (kv_V kv) of
           None \<Rightarrow> (vs, tw, Some (Panic ''nil pointer dereference''))
         | Some fetcher \<Rightarrow>
            (case pbr_reference vs (BlobFileNum fetcher) of
               Inl e \<Rightarrow> (vs, tw, Some e)
             | Inr (vs, refIdx) \<Rightarrow>
                (case (if invariants_Enabled deps
                       then wrong_reference_index vs refIdx (BlobFileNum fetcher) else None) of
                   Some e \<Rightarrow> (vs, tw, Some e)
                 | None \<Rightarrow> pbr_write_handle deps vs tw kv fetcher refIdx forceObsolete))))"

fun pbr_Adds :: "build_deps \<Rightarrow> preserveBlobReferences \<Rightarrow> RawWriter \<Rightarrow>
    (InternalKV \<times> bool) list \<Rightarrow> pbr_result" where
  "pbr_Adds deps vs tw [] = (vs, tw, None)"
| "pbr_Adds deps vs tw ((kv, forceObsolete) # rest) =
     (case pbr_Add deps vs tw kv forceObsolete of
        (vs', tw', Some e) \<Rightarrow> (vs', tw', Some e)
      | (vs', tw', None) \<Rightarrow> pbr_Adds deps vs' tw' rest)"

text \<open>The loop of lines 313-316.\<close>

fun referenceSize_loop :: "BlobReference list \<Rightarrow> uint64 \<Rightarrow> uint64" where
  "referenceSize_loop [] referenceSize = referenceSize"
| "referenceSize_loop (ref # refs) referenceSize =
     referenceSize_loop refs (referenceSize + br_ValueSize ref)"

definition pbr_FinishOutput :: "preserveBlobReferences \<Rightarrow>
    preserveBlobReferences \<times> (error + ValueSeparationMetadata)" where
  "pbr_FinishOutput vs =
     (let references = currReferences vs;
          vs' = vs\<lparr>currReferences := take 0 (currReferences vs)\<rparr>;
          referenceSize = referenceSize_loop references 0
      in (vs',
          Inr (empty_ValueSeparationMetadata
                 \<lparr>BlobReferences := references,
                  BlobReferenceSize := referenceSize,
                  BlobReferenceDepth :=
                    min (outputBlobReferenceDepth vs) (int (length references))\<rparr>)))"

definition pbr_EstimatedReferenceSize :: "preserveBlobReferences \<Rightarrow> uint64" where
  "pbr_EstimatedReferenceSize vs = totalValueSize vs"

text \<open>
  The order of first appearance, in the words of the specification: the values of a list
  without their later repetitions, and the position of a value in a list.
\<close>

fun first_seen :: "'a list \<Rightarrow> 'a list \<Rightarrow> 'a list" where
  "first_seen acc [] = acc"
| "first_seen acc (x # xs) = first_seen (if x \<in> set acc then acc else acc @ [x]) xs"

definition first_appearances :: "'a list \<Rightarrow> 'a list" where
  "first_appearances xs = first_seen [] xs"

fun position_of :: "'a \<Rightarrow> 'a list \<Rightarrow> nat" where
  "position_of x [] = 0"
| "position_of x (y # ys) = (if x = y then 0 else Suc (position_of x ys))"

text \<open>The blob file numbers of the values of a run that are blob handles, in order.\<close>

fun blob_file_nums :: "(InternalKV \<times> bool) list \<Rightarrow> DiskFileNum list" where
  "blob_file_nums [] = []"
| "blob_file_nums ((kv, forceObsolete) # rest) =
     (if IsBlobValueHandle (kv_V kv)
      then (case Fetcher (kv_V kv) of
              Some f \<Rightarrow> BlobFileNum f # blob_file_nums rest
            | None \<Rightarrow> blob_file_nums rest)
      else blob_file_nums rest)"

text \<open>
  What the specification expects in the sstable for one value, given the order \<open>files\<close> of
  first appearance of the blob files of the output: an in-place value as it is, a blob
  handle with its file's position as reference index.
\<close>

definition expected_entry :: "build_deps \<Rightarrow> DiskFileNum list \<Rightarrow> InternalKV \<times> bool \<Rightarrow> tw_entry" where
  "expected_entry deps files p =
     (case p of (kv, forceObsolete) \<Rightarrow>
        (case (if IsBlobValueHandle (kv_V kv) then Fetcher (kv_V kv) else None) of
           Some f \<Rightarrow>
             TwAddWithBlobHandle (kv_K kv)
               \<lparr>ReferenceIndex = word_of_nat (position_of (BlobFileNum f) files),
                ih_ValueLen = ValueLen (Attribute f),
                ih_HandleSuffix = DecodeHandleSuffix deps (ValueOrHandle (kv_V kv))\<rparr>
               (ShortAttr (Attribute f)) forceObsolete
         | None \<Rightarrow>
             TwAdd (kv_K kv)
               (case InternalKV_Value kv of Inr (v, callerOwned) \<Rightarrow> v | Inl e \<Rightarrow> [])
               forceObsolete))"

text \<open>
  The words used to state the properties of \<open>preserveBlobReferences\<close>: the blob file numbers of
  the current references, the sum of their \<open>ValueSize\<close>s, and the invariant of the field
  comment of \<open>totalValueSize\<close>.
\<close>

definition ref_files :: "preserveBlobReferences \<Rightarrow> DiskFileNum list" where
  "ref_files vs = map br_FileNum (currReferences vs)"

definition references_total :: "BlobReference list \<Rightarrow> uint64" where
  "references_total refs = sum_list (map br_ValueSize refs)"

definition totalValueSize_invariant :: "preserveBlobReferences \<Rightarrow> bool" where
  "totalValueSize_invariant vs = (totalValueSize vs = references_total (currReferences vs))"

text \<open>A small run used to exercise the model: three input blob files, four values.\<close>

definition example_deps :: build_deps where
  "example_deps =
     \<lparr>invariants_Enabled = True,
      DecodeHandleSuffix = (\<lambda>b. \<lparr>hs_BlockNum = 0, hs_OffsetInBlock = word_of_nat (length b)\<rparr>)\<rparr>"

definition blob_handle_kv :: "bytes \<Rightarrow> DiskFileNum \<Rightarrow> uint32 \<Rightarrow> InternalKV" where
  "blob_handle_kv k fn len =
     \<lparr>kv_K = \<lparr>UserKey = k, SeqNum = 1, Kind = InternalKeyKindSet\<rparr>,
      kv_V = \<lparr>ValueOrHandle = [0, 0],
              Fetcher = Some \<lparr>Fetch = Inl (External ''not fetched''),
                              Attribute = \<lparr>ValueLen = len, ShortAttr = 0\<rparr>,
                              BlobFileNum = fn\<rparr>\<rparr>\<rparr>"

definition example_BlobFileMetadata :: "DiskFileNum \<Rightarrow> BlobFileMetadata" where
  "example_BlobFileMetadata fn =
     \<lparr>bm_FileNum = fn, bm_Size = 100, bm_ValueSize = 80, bm_CreationTime = 0\<rparr>"

definition example_preserveBlobReferences :: preserveBlobReferences where
  "example_preserveBlobReferences =
     \<lparr>inputBlobMetadatas =
        [example_BlobFileMetadata 3, example_BlobFileMetadata 5, example_BlobFileMetadata 9],
      outputBlobReferenceDepth = 3,
      pb_buf = [],
      currReferences = [],
      totalValueSize = 0\<rparr>"

definition example_values :: "(InternalKV \<times> bool) list" where
  "example_values =
     [(blob_handle_kv [97] 5 4, False),
      (in_place_kv [98] InternalKeyKindSet [1, 2], False),
      (blob_handle_kv [99] 3 6, False),
      (blob_handle_kv [100] 5 2, False)]"

section \<open>Sorted-file footer\<close>

text \<open>
  Table formats and checksum types. The enumeration \<open>TableFormat\<close> and the numbering of
  \<open>block.ChecksumType\<close> are declared in files that are not among the sources; the formats
  are the ones \<open>supportsTwoLevelIndex\<close> names, and a checksum type is a byte.
\<close>

datatype TableFormat =
    TableFormatUnspecified
  | TableFormatLevelDB
  | TableFormatRocksDBv2
  | TableFormatPebblev1
  | TableFormatPebblev2
  | TableFormatPebblev3
  | TableFormatPebblev4

type_synonym ChecksumType = byte

definition ChecksumTypeNone :: ChecksumType where "ChecksumTypeNone = 0"
definition ChecksumTypeCRC32c :: ChecksumType where "ChecksumTypeCRC32c = 1"
definition ChecksumTypeXXHash :: ChecksumType where "ChecksumTypeXXHash = 2"
definition ChecksumTypeXXHash64 :: ChecksumType where "ChecksumTypeXXHash64 = 3"

record Handle =
  Offset :: uint64
  Length :: uint64

record footer =
  format :: TableFormat
  checksum :: ChecksumType
  metaindexBH :: Handle
  indexBH :: Handle
  footerBH :: Handle

definition zero_Handle :: Handle where
  "zero_Handle = \<lparr>Offset = 0, Length = 0\<rparr>"

text \<open>\<open>var footer footer\<close>: the zero value.\<close>

definition zero_footer :: footer where
  "zero_footer = \<lparr>format = TableFormatUnspecified, checksum = 0, metaindexBH = zero_Handle,
     indexBH = zero_Handle, footerBH = zero_Handle\<rparr>"

text \<open>The footer constants.\<close>

definition blockHandleMaxLenWithoutProperties :: nat where
  "blockHandleMaxLenWithoutProperties = 10 + 10"

definition levelDBMagic :: bytes where
  "levelDBMagic = [0x57, 0xfb, 0x80, 0x8b, 0x24, 0x75, 0x47, 0xdb]"

definition rocksDBMagic :: bytes where
  "rocksDBMagic = [0xf7, 0xcf, 0xf4, 0x85, 0xb7, 0x41, 0xe2, 0x88]"

definition pebbleDBMagic :: bytes where
  "pebbleDBMagic = [0xf0, 0x9f, 0xaa, 0xb3, 0xf0, 0x9f, 0xaa, 0xb3]"

definition levelDBFooterLen :: nat where
  "levelDBFooterLen = 48"

definition levelDBMagicOffset :: nat where
  "levelDBMagicOffset = levelDBFooterLen - length levelDBMagic"

definition rocksDBFooterLen :: nat where
  "rocksDBFooterLen = 1 + 2 * blockHandleMaxLenWithoutProperties + 4 + 8"

definition rocksDBMagicOffset :: nat where
  "rocksDBMagicOffset = rocksDBFooterLen - length rocksDBMagic"

definition rocksDBVersionOffset :: nat where
  "rocksDBVersionOffset = rocksDBMagicOffset - 4"

definition minFooterLen :: nat where
  "minFooterLen = levelDBFooterLen"

definition maxFooterLen :: nat where
  "maxFooterLen = rocksDBFooterLen"

definition levelDBFormatVersion :: uint32 where
  "levelDBFormatVersion = 0"

definition rocksDBFormatVersion2 :: uint32 where
  "rocksDBFormatVersion2 = 2"

text \<open>
  Go's \<open>encoding/binary\<close>: \<open>Uvarint\<close> reads a base-128 varint and returns the value and the
  number of bytes read, \<open>(0, 0)\<close> when the buffer ends early and \<open>(0, -(i + 1))\<close> on a
  value that does not fit 64 bits; \<open>PutUvarint\<close> writes one (the model returns the bytes
  written); \<open>LittleEndian.Uint32\<close> and \<open>PutUint32\<close> read and write four bytes.
\<close>

fun Uvarint_loop :: "bytes \<Rightarrow> nat \<Rightarrow> uint64 \<Rightarrow> nat \<Rightarrow> uint64 \<times> int" where
  "Uvarint_loop [] i x s = (0, 0)"
| "Uvarint_loop (b # buf) i x s =
     (if i = 10 then (0, - (int i + 1))
      else if b < 0x80 then
        (if i = 10 - 1 \<and> b > 1 then (0, - (int i + 1))
         else (x OR push_bit s (ucast b), int i + 1))
      else Uvarint_loop buf (i + 1) (x OR push_bit s (ucast (b AND 0x7f))) (s + 7))"

definition Uvarint :: "bytes \<Rightarrow> uint64 \<times> int" where
  "Uvarint buf = Uvarint_loop buf 0 0 0"

function PutUvarint :: "uint64 \<Rightarrow> bytes" where
  "PutUvarint x =
     (if x \<ge> 0x80 then (ucast x OR 0x80) # PutUvarint (drop_bit 7 x) else [ucast x])"
  by pat_completeness auto
termination
proof (relation "measure unat")
  show "wf (measure unat)" by simp
next
  fix x :: uint64
  assume "0x80 \<le> x"
  then have "128 \<le> unat x" by (simp add: word_le_nat_alt)
  then have "unat x div 128 < unat x" by simp
  then show "(drop_bit 7 x, x) \<in> measure unat"
    by (simp add: drop_bit_eq_div unat_div)
qed

declare PutUvarint.simps [simp del]

definition LittleEndian_Uint32 :: "bytes \<Rightarrow> uint32" where
  "LittleEndian_Uint32 b =
     ucast (b ! 0) OR push_bit 8 (ucast (b ! 1)) OR push_bit 16 (ucast (b ! 2)) OR
     push_bit 24 (ucast (b ! 3))"

definition LittleEndian_PutUint32 :: "uint32 \<Rightarrow> bytes" where
  "LittleEndian_PutUint32 v =
     [ucast v, ucast (drop_bit 8 v), ucast (drop_bit 16 v), ucast (drop_bit 24 v)]"

text \<open>The slice expression \<open>b[lo:hi]\<close> and \<open>copy(dst[pos:], src)\<close>.\<close>

definition slice :: "bytes \<Rightarrow> nat \<Rightarrow> nat \<Rightarrow> bytes" where
  "slice b lo hi = take (hi - lo) (drop lo b)"

definition copy_at :: "bytes \<Rightarrow> nat \<Rightarrow> bytes \<Rightarrow> bytes" where
  "copy_at dst pos src =
     take pos dst @ take (length dst - pos) src @ drop (pos + length src) dst"

text \<open>
  Modelled from the spec: \<open>block.DecodeHandle\<close> and \<open>Handle.EncodeVarints\<close> (package
  sstable/block, not among the sources). "Two block-handle varint pairs (metaindex,
  top-level index)"; the comment of the source adds: "A block handle is an offset, a
  length [...] All numbers are varint-encoded, with no padding between the two values."
  \<open>DecodeHandle\<close> returns the handle and the number of bytes it occupies, 0 on invalid
  input (a varint cut short or too long for 64 bits).
\<close>

definition DecodeHandle :: "bytes \<Rightarrow> Handle \<times> nat" where
  "DecodeHandle src =
     (let (offset, n) = Uvarint src in
      if n \<le> 0 then (zero_Handle, 0)
      else
        (let (len, m) = Uvarint (drop (nat n) src) in
         if m \<le> 0 then (zero_Handle, 0)
         else (\<lparr>Offset = offset, Length = len\<rparr>, nat n + nat m)))"

definition EncodeVarints :: "Handle \<Rightarrow> bytes" where
  "EncodeVarints h = PutUvarint (Offset h) @ PutUvarint (Length h)"

text \<open>
  Modelled from the spec: \<open>ParseTableFormat\<close> and \<open>TableFormat.AsTuple\<close> (format.go, not
  among the sources). "Magic number (format-specific) [...] and a version field for
  non-legacy formats": a format is a pair of a magic and a version. The LevelDB magic
  stands for the LevelDB format whatever the version, the RocksDB magic needs
  \<open>rocksDBFormatVersion2\<close>, and the Pebble magic takes the version \<open>n\<close> of
  \<open>TableFormatPebblev\<close>\<open>n\<close>; any other pair is a corruption error.
\<close>

definition ParseTableFormat :: "bytes \<Rightarrow> uint32 \<Rightarrow> error + TableFormat" where
  "ParseTableFormat magic version =
     (if magic = levelDBMagic then Inr TableFormatLevelDB
      else if magic = rocksDBMagic then
        (if version \<noteq> rocksDBFormatVersion2
         then Inl (Corruption ''pebble/table: unsupported rocksdb format version'')
         else Inr TableFormatRocksDBv2)
      else if magic = pebbleDBMagic then
        (if version = 1 then Inr TableFormatPebblev1
         else if version = 2 then Inr TableFormatPebblev2
         else if version = 3 then Inr TableFormatPebblev3
         else if version = 4 then Inr TableFormatPebblev4
         else Inl (Corruption ''pebble/table: unsupported pebble format version''))
      else Inl (Corruption ''pebble/table: invalid table (bad magic number)''))"

fun AsTuple :: "TableFormat \<Rightarrow> (bytes \<times> uint32) option" where
  "AsTuple TableFormatLevelDB = Some (levelDBMagic, levelDBFormatVersion)"
| "AsTuple TableFormatRocksDBv2 = Some (rocksDBMagic, rocksDBFormatVersion2)"
| "AsTuple TableFormatPebblev1 = Some (pebbleDBMagic, 1)"
| "AsTuple TableFormatPebblev2 = Some (pebbleDBMagic, 2)"
| "AsTuple TableFormatPebblev3 = Some (pebbleDBMagic, 3)"
| "AsTuple TableFormatPebblev4 = Some (pebbleDBMagic, 4)"
| "AsTuple TableFormatUnspecified = None"

text \<open>
  \<open>parseFooter\<close>. \<open>off\<close> and \<open>size\<close> (here \<open>fsize\<close>) are \<open>int64\<close> in the source; the model
  keeps their 64 bits, so that \<open>uint64(size)\<close> is the same word and all sums wrap as they do
  in Go. The
  first part is the \<open>switch\<close> on the magic (lines 306-346): it yields the footer filled in
  so far and the rest of the buffer, which holds the two block handles.
\<close>

definition parseFooter_magic :: "bytes \<Rightarrow> uint64 \<Rightarrow> error + (footer \<times> bytes)" where
  "parseFooter_magic buf off =
     (if length buf < length rocksDBMagic then Inl (Panic ''slice bounds out of range'')
      else
        (let magic = drop (length buf - length rocksDBMagic) buf in
         if magic = levelDBMagic then
           (if length buf < levelDBFooterLen then Inl (Corruption ''(footer too short)'')
            else
              (let footer = zero_footer\<lparr>footerBH :=
                      \<lparr>Offset = off + word_of_nat (length buf) - word_of_nat levelDBFooterLen,
                       Length = Length (footerBH zero_footer)\<rparr>\<rparr>;
                   buf = drop (length buf - levelDBFooterLen) buf;
                   footer = footer\<lparr>footerBH := (footerBH footer)\<lparr>Length := word_of_nat (length buf)\<rparr>\<rparr>;
                   footer = footer\<lparr>format := TableFormatLevelDB\<rparr>;
                   footer = footer\<lparr>checksum := ChecksumTypeCRC32c\<rparr>
               in Inr (footer, buf)))
         else if magic = rocksDBMagic \<or> magic = pebbleDBMagic then
           (if length buf < rocksDBFooterLen then Inl (Corruption ''(footer too short)'')
            else
              (let footer = zero_footer\<lparr>footerBH :=
                      \<lparr>Offset = off + word_of_nat (length buf) - word_of_nat rocksDBFooterLen,
                       Length = Length (footerBH zero_footer)\<rparr>\<rparr>;
                   buf = drop (length buf - rocksDBFooterLen) buf;
                   footer = footer\<lparr>footerBH := (footerBH footer)\<lparr>Length := word_of_nat (length buf)\<rparr>\<rparr>;
                   version = LittleEndian_Uint32 (slice buf rocksDBVersionOffset rocksDBMagicOffset)
               in case ParseTableFormat magic version of
                    Inl err \<Rightarrow> Inl err
                  | Inr fmt \<Rightarrow>
                     (let footer = footer\<lparr>format := fmt\<rparr> in
                      if buf ! 0 = ChecksumTypeCRC32c then
                        Inr (footer\<lparr>checksum := ChecksumTypeCRC32c\<rparr>, drop 1 buf)
                      else if buf ! 0 = ChecksumTypeXXHash64 then
                        Inr (footer\<lparr>checksum := ChecksumTypeXXHash64\<rparr>, drop 1 buf)
                      else Inl (Corruption ''(unsupported checksum type)''))))
         else Inl (Corruption ''(bad magic number)'')))"

definition parseFooter :: "bytes \<Rightarrow> uint64 \<Rightarrow> uint64 \<Rightarrow> error + footer" where
  "parseFooter buf off fsize =
     (case parseFooter_magic buf off of
        Inl err \<Rightarrow> Inl err
      | Inr (footer, buf) \<Rightarrow>
         (let end = fsize;
              (mbh, n) = DecodeHandle buf;
              footer = footer\<lparr>metaindexBH := mbh\<rparr>
          in if n = 0 \<or> Offset (metaindexBH footer) + Length (metaindexBH footer) > end then
               Inl (Corruption ''(bad metaindex block handle)'')
             else
               (let buf = drop n buf;
                    (ibh, n) = DecodeHandle buf;
                    footer = footer\<lparr>indexBH := ibh\<rparr>
                in if n = 0 \<or> Offset (indexBH footer) + Length (indexBH footer) > end then
                     Inl (Corruption ''(bad index block handle)'')
                   else Inr footer)))"

text \<open>
  \<open>readFooter\<close> on a readable object: its contents, and whether reading from it fails.
  \<open>f.Size()\<close> is the length of the contents as an \<open>int64\<close>.
\<close>

record Readable =
  contents :: bytes
  read_fails :: "error option"

definition Readable_Size :: "Readable \<Rightarrow> uint64" where
  "Readable_Size f = word_of_nat (length (contents f))"

definition ReadAt :: "Readable \<Rightarrow> nat \<Rightarrow> uint64 \<Rightarrow> error + bytes" where
  "ReadAt f n off =
     (case read_fails f of
        Some err \<Rightarrow> Inl err
      | None \<Rightarrow>
         if unat off + n > length (contents f) then Inl (External ''EOF'')
         else Inr (take n (drop (unat off) (contents f))))"

definition readFooter :: "Readable \<Rightarrow> error + footer" where
  "readFooter f =
     (let fsize = Readable_Size f in
      if sint fsize < int minFooterLen then
        Inl (Corruption ''pebble/table: invalid table (file size is too small)'')
      else
        (let off = fsize - word_of_nat maxFooterLen;
             (off, n) = (if sint off < 0 then (0, unat fsize) else (off, maxFooterLen))
         in case ReadAt f n off of
              Inl err \<Rightarrow> Inl (Wrapped ''pebble/table: invalid table (could not read footer)'' err)
            | Inr buf \<Rightarrow>
               (case parseFooter buf off fsize of
                  Inl err \<Rightarrow> Inl (Wrapped ''pebble/table: invalid table'' err)
                | Inr foot \<Rightarrow> Inr foot)))"

text \<open>
  \<open>footer.encode\<close>. The buffer handed in is cut to the footer length and cleared; the
  model starts from the cleared buffer and performs the writes in the order of the source.
\<close>

definition footer_encode :: "footer \<Rightarrow> error + bytes" where
  "footer_encode f =
     (case AsTuple (format f) of
        None \<Rightarrow> Inl (Panic ''sstable: unknown table format version tuple'')
      | Some (magic, version) \<Rightarrow>
         if magic = levelDBMagic then
           (let buf = replicate levelDBFooterLen 0;
                n = length (EncodeVarints (metaindexBH f));
                buf = copy_at buf 0 (EncodeVarints (metaindexBH f));
                buf = copy_at buf n (EncodeVarints (indexBH f));
                buf = copy_at buf (length buf - length levelDBMagic) levelDBMagic
            in Inr buf)
         else if magic = rocksDBMagic \<or> magic = pebbleDBMagic then
           (if checksum f \<noteq> ChecksumTypeNone \<and> checksum f \<noteq> ChecksumTypeCRC32c \<and>
               checksum f \<noteq> ChecksumTypeXXHash \<and> checksum f \<noteq> ChecksumTypeXXHash64
            then Inl (Panic ''unknown checksum type'')
            else
              (let buf = replicate rocksDBFooterLen 0;
                   buf = buf[0 := checksum f];
                   n = 1;
                   buf = copy_at buf n (EncodeVarints (metaindexBH f));
                   n = n + length (EncodeVarints (metaindexBH f));
                   buf = copy_at buf n (EncodeVarints (indexBH f));
                   buf = copy_at buf rocksDBVersionOffset (LittleEndian_PutUint32 version);
                   buf = copy_at buf (length buf - length rocksDBMagic) magic
               in Inr buf))
         else Inl (Panic ''sstable: unspecified table format version''))"

text \<open>
  The checksum types a footer of a format can carry through \<open>parseFooter\<close>: the LevelDB
  layout stores none and is read as CRC32c; the other layout is read back only with
  CRC32c or XXHash64.
\<close>

definition checksum_valid_for :: "TableFormat \<Rightarrow> ChecksumType \<Rightarrow> bool" where
  "checksum_valid_for fmt c =
     (if fmt = TableFormatLevelDB then c = ChecksumTypeCRC32c
      else c = ChecksumTypeCRC32c \<or> c = ChecksumTypeXXHash64)"

text \<open>The zero bytes between the two encoded block handles and the rest of the footer.\<close>

definition handle_padding :: "footer \<Rightarrow> bytes" where
  "handle_padding f =
     replicate (40 - length (EncodeVarints (metaindexBH f)) - length (EncodeVarints (indexBH f))) 0"

text \<open>
  Example footers. \<open>overflowing_footer\<close> is a 53-byte Pebble footer (checksum type CRC32c,
  version 1) whose metaindex handle is the varint of \<open>2^64 - 1\<close> followed by the varint of 1.
  The other three carry the handles (300, 70000) and (5, 65535) under each magic.
\<close>

definition overflowing_footer :: bytes where
  "overflowing_footer =
     [1] @ [0xff, 0xff, 0xff, 0xff, 0xff, 0xff, 0xff, 0xff, 0xff, 0x01] @ [0x01] @ [0, 0] @
     replicate 27 0 @ [1, 0, 0, 0] @ pebbleDBMagic"

definition example_handles :: bytes where
  "example_handles = [0xac, 0x02, 0xf0, 0xa2, 0x04] @ [0x05, 0xff, 0xff, 0x03] @ replicate 31 0"

text \<open>The magics of the \<open>case\<close> labels of \<open>parseFooter\<close>.\<close>

definition recognized_magics :: "bytes set" where
  "recognized_magics = {levelDBMagic, rocksDBMagic, pebbleDBMagic}"

definition example_footer :: footer where
  "example_footer =
     \<lparr>format = TableFormatPebblev3, checksum = ChecksumTypeXXHash64,
      metaindexBH = \<lparr>Offset = 300, Length = 70000\<rparr>,
      indexBH = \<lparr>Offset = 5, Length = 65535\<rparr>,
      footerBH = zero_Handle\<rparr>"

definition example_leveldb_footer :: bytes where
  "example_leveldb_footer = example_handles @ levelDBMagic"

definition example_rocksdb_footer :: bytes where
  "example_rocksdb_footer = [1] @ example_handles @ [2, 0, 0, 0] @ rocksDBMagic"

definition example_pebbledb_footer :: bytes where
  "example_pebbledb_footer = [1] @ example_handles @ [2, 0, 0, 0] @ pebbleDBMagic"

section \<open>Merging iterator\<close>

text \<open>
  Modelled from the spec: the merging iterator of the read path (the iterator, the merging
  of levels and the external iterator are not among the sources; only the data-driven
  test file \<open>testdata/external_iterator\<close> and the test commands are). section 4.6: "for a
  requested read sequence-number ceiling S, only internal keys with sequence number \<le> S
  are visible; among visible keys sharing a user key, only the one with the greatest
  sequence number (and a kind other than 'invisible marker') is surfaced"; the iterator
  maintains "the currently-active range-deletion tombstone (by highest covering sequence
  number)", and by section 4.4 a key "is shadowed by an overlapping range deletion with a higher
  sequence number". A range deletion covers the user keys of \<open>[start, end)\<close>. The position is
  one of before-first, positioned-at-key, exhausted (the model reads no storage, so it has
  no errored position). User keys are ordered as by \<open>bytes.Compare\<close>.
\<close>

record RangeDel =
  rd_Start :: bytes
  rd_End :: bytes
  rd_SeqNum :: uint64

record SortedFile =
  sf_points :: "(InternalKey \<times> bytes) list"
  sf_rangeDels :: "RangeDel list"

definition SeqNumMax :: uint64 where
  "SeqNumMax = 0x00ffffffffffffff"

definition visible :: "uint64 \<Rightarrow> InternalKey \<Rightarrow> bool" where
  "visible S k = (SeqNum k \<le> S)"

definition covers :: "RangeDel \<Rightarrow> bytes \<Rightarrow> bool" where
  "covers rd userKey =
     (bytes_Compare (rd_Start rd) userKey \<le> 0 \<and> bytes_Compare userKey (rd_End rd) < 0)"

definition shadowed :: "uint64 \<Rightarrow> RangeDel list \<Rightarrow> InternalKey \<Rightarrow> bool" where
  "shadowed S rds k =
     (\<exists>rd\<in>set rds. rd_SeqNum rd \<le> S \<and> covers rd (UserKey k) \<and> SeqNum k < rd_SeqNum rd)"

definition invisible_marker :: "InternalKeyKind \<Rightarrow> bool" where
  "invisible_marker kind =
     (kind = InternalKeyKindDelete \<or> kind = InternalKeyKindSingleDelete)"

definition newest_of :: "(InternalKey \<times> bytes) list \<Rightarrow> InternalKey \<Rightarrow> bool" where
  "newest_of pts k =
     (\<forall>p\<in>set pts. UserKey (fst p) = UserKey k \<longrightarrow> SeqNum (fst p) \<le> SeqNum k)"

fun insert_by_key :: "bytes \<times> bytes \<Rightarrow> (bytes \<times> bytes) list \<Rightarrow> (bytes \<times> bytes) list" where
  "insert_by_key e [] = [e]"
| "insert_by_key e (x # xs) =
     (if bytes_Compare (fst e) (fst x) \<le> 0 then e # x # xs else x # insert_by_key e xs)"

fun sort_by_key :: "(bytes \<times> bytes) list \<Rightarrow> (bytes \<times> bytes) list" where
  "sort_by_key [] = []"
| "sort_by_key (e # es) = insert_by_key e (sort_by_key es)"

text \<open>The key-value pairs a read at ceiling \<open>S\<close> over the given files surfaces, in key order.\<close>

definition surfaced :: "uint64 \<Rightarrow> SortedFile list \<Rightarrow> (bytes \<times> bytes) list" where
  "surfaced S files =
     (let pts = filter (\<lambda>p. visible S (fst p)) (concat (map sf_points files));
          rds = concat (map sf_rangeDels files);
          live = filter (\<lambda>p. newest_of pts (fst p) \<and> \<not> invisible_marker (Kind (fst p)) \<and>
                              \<not> shadowed S rds (fst p)) pts
      in sort_by_key (map (\<lambda>p. (UserKey (fst p), snd p)) live))"

datatype iter_position = BeforeFirst | PositionedAtKey nat | Exhausted

record MergingIter =
  mi_entries :: "(bytes \<times> bytes) list"
  mi_position :: iter_position

definition NewMergingIter :: "SortedFile list \<Rightarrow> uint64 \<Rightarrow> MergingIter" where
  "NewMergingIter files S = \<lparr>mi_entries = surfaced S files, mi_position = BeforeFirst\<rparr>"

definition iter_First :: "MergingIter \<Rightarrow> MergingIter" where
  "iter_First it =
     it\<lparr>mi_position := (if mi_entries it = [] then Exhausted else PositionedAtKey 0)\<rparr>"

definition iter_Next :: "MergingIter \<Rightarrow> MergingIter" where
  "iter_Next it =
     (case mi_position it of
        BeforeFirst \<Rightarrow> iter_First it
      | PositionedAtKey i \<Rightarrow>
          it\<lparr>mi_position :=
               (if Suc i < length (mi_entries it) then PositionedAtKey (Suc i) else Exhausted)\<rparr>
      | Exhausted \<Rightarrow> it)"

text \<open>What the iterator reports at its position: the key and value, or nothing.\<close>

definition iter_current :: "MergingIter \<Rightarrow> (bytes \<times> bytes) option" where
  "iter_current it =
     (case mi_position it of
        PositionedAtKey i \<Rightarrow> Some (mi_entries it ! i)
      | BeforeFirst \<Rightarrow> None
      | Exhausted \<Rightarrow> None)"

datatype iter_op = OpFirst | OpNext

fun run_iter :: "MergingIter \<Rightarrow> iter_op list \<Rightarrow> (bytes \<times> bytes) option list" where
  "run_iter it [] = []"
| "run_iter it (OpFirst # ops) = iter_current (iter_First it) # run_iter (iter_First it) ops"
| "run_iter it (OpNext # ops) = iter_current (iter_Next it) # run_iter (iter_Next it) ops"

text \<open>
  The files of the scenarios of section 8 (and of \<open>testdata/external_iterator\<close>): file 1 holds
  \<open>b:b\<close> and \<open>c:c\<close> at sequence numbers 1 and 2, file 2 the range deletion \<open>[c, z)\<close> at sequence
  number 3, file 3 holds \<open>a:a\<close> and \<open>f:f\<close> at sequence numbers 4 and 5. The keys are the ASCII
  codes: a = 97, b = 98, c = 99, f = 102, z = 122.
\<close>

definition set_kv :: "bytes \<Rightarrow> uint64 \<Rightarrow> bytes \<Rightarrow> InternalKey \<times> bytes" where
  "set_kv k seq v = (\<lparr>UserKey = k, SeqNum = seq, Kind = InternalKeyKindSet\<rparr>, v)"

definition file_1 :: SortedFile where
  "file_1 = \<lparr>sf_points = [set_kv [98] 1 [98], set_kv [99] 2 [99]], sf_rangeDels = []\<rparr>"

definition file_2 :: SortedFile where
  "file_2 = \<lparr>sf_points = [],
              sf_rangeDels = [\<lparr>rd_Start = [99], rd_End = [122], rd_SeqNum = 3\<rparr>]\<rparr>"

definition file_3 :: SortedFile where
  "file_3 = \<lparr>sf_points = [set_kv [97] 4 [97], set_kv [102] 5 [102]], sf_rangeDels = []\<rparr>"

section \<open>Properties of writeNewBlobFiles\<close>

lemma tw_call_Inr:
  "tw_call tw e = Inr tw1 \<Longrightarrow> tw_entries tw1 = tw_entries tw @ [e] \<and> tw_fails tw1 = tw_fails tw"
  by (auto simp: tw_call_def split: option.splits)

lemma wnbf_Add_in_place:
  assumes "InternalKV_Value kv = Inr (v, co)"
    and "in_place_condition vs (kv_K kv) v"
  shows "wnbf_Add vs objs tw kv fo =
     wnbf_inline (if co then vs\<lparr>wn_buf := []\<rparr> else vs) objs tw (kv_K kv) v fo"
  using assms
  by (auto simp: wnbf_Add_def in_place_condition_def too_small_def
      within_required_in_place_bound_def Let_def)

lemma wnbf_Add_separated:
  assumes "InternalKV_Value kv = Inr (v, co)"
    and "\<not> in_place_condition vs (kv_K kv) v"
  shows "\<exists>vs1. wnbf_Add vs objs tw kv fo = wnbf_separate vs1 objs tw (kv_K kv) v fo
     \<and> writer vs1 = writer vs \<and> objMeta vs1 = objMeta vs \<and> writerOpts vs1 = writerOpts vs"
  using assms
  by (auto simp: wnbf_Add_def in_place_condition_def too_small_def
      within_required_in_place_bound_def Let_def)

lemma wnbf_inline_effect:
  assumes "wnbf_inline vs objs tw k v fo = (vs', objs', tw', err)"
  shows "vs' = vs \<and> objs' = objs \<and>
     (if err = None then tw_entries tw' = tw_entries tw @ [TwAdd k v fo] else tw' = tw)"
proof (cases "tw_call tw (TwAdd k v fo)")
  case (Inl x)
  with assms show ?thesis by (auto simp: wnbf_inline_def tw_Add_def)
next
  case (Inr tw1)
  with assms tw_call_Inr [OF Inr] show ?thesis by (auto simp: wnbf_inline_def tw_Add_def)
qed

lemma wnbf_separate_effect:
  assumes "wnbf_separate vs objs tw k v fo = (vs', objs', tw', err)"
  shows "(if err = None
      then (\<exists>h a. tw_entries tw' = tw_entries tw @ [TwAddWithBlobHandle k h a fo] \<and>
                  ReferenceIndex h = 0 \<and> ih_ValueLen h = word_of_nat (length v)) \<and>
                blob_values vs' = blob_values vs @ [v]
      else tw' = tw)"
  using assms
  by (auto simp: wnbf_separate_def tw_AddWithBlobHandle_def blob_values_def
      FileWriter_AddValue_def NewFileWriter_def Let_def
      split: option.splits sum.splits prod.splits dest!: tw_call_Inr)

text \<open>
  Claim C1. For a key-value pair whose value \<open>Add\<close> could fetch, the value goes to the
  sstable writer's \<open>Add\<close> exactly when it is shorter than the minimum size, or the key is a
  merge key, or the key's prefix lies in the required-in-place bound of the struct: then
  the entry offered to the sstable is the value itself and neither the blob file nor object
  storage is touched. In every other case no value is offered in place: when \<open>Add\<close> returns
  without error, the value has been appended to the blob file and the sstable received a
  handle carrying the value's length; when it returns an error, the sstable is unchanged.
\<close>

theorem writeNewBlobFiles_Add_inline_iff:
  assumes "InternalKV_Value kv = Inr (v, callerOwned)"
    and "wnbf_Add vs objs tw kv forceObsolete = (vs', objs', tw', err)"
  shows "(in_place_condition vs (kv_K kv) v \<longrightarrow>
            blob_values vs' = blob_values vs \<and> objs' = objs \<and>
            (if err = None
             then tw_entries tw' = tw_entries tw @ [TwAdd (kv_K kv) v forceObsolete]
             else tw' = tw)) \<and>
         (\<not> in_place_condition vs (kv_K kv) v \<longrightarrow>
            (if err = None
             then (\<exists>h a. tw_entries tw' =
                      tw_entries tw @ [TwAddWithBlobHandle (kv_K kv) h a forceObsolete] \<and>
                    ih_ValueLen h = word_of_nat (length v)) \<and>
                 blob_values vs' = blob_values vs @ [v]
             else tw' = tw))"
proof (cases "in_place_condition vs (kv_K kv) v")
  case True
  from wnbf_Add_in_place [OF assms(1) True, of objs tw forceObsolete] assms(2)
  have "wnbf_inline (if callerOwned then vs\<lparr>wn_buf := []\<rparr> else vs) objs tw (kv_K kv) v forceObsolete
      = (vs', objs', tw', err)" by simp
  from wnbf_inline_effect [OF this] have "vs' = (if callerOwned then vs\<lparr>wn_buf := []\<rparr> else vs)"
    and "objs' = objs"
    and "if err = None then tw_entries tw' = tw_entries tw @ [TwAdd (kv_K kv) v forceObsolete]
         else tw' = tw" by simp_all
  moreover from this(1) have "blob_values vs' = blob_values vs"
    by (simp add: blob_values_def)
  ultimately show ?thesis using True by simp
next
  case False
  from wnbf_Add_separated [OF assms(1) False, of objs tw forceObsolete] assms(2)
  obtain vs1 where s: "wnbf_separate vs1 objs tw (kv_K kv) v forceObsolete = (vs', objs', tw', err)"
    and w: "writer vs1 = writer vs" by auto
  from w have "blob_values vs1 = blob_values vs" by (simp add: blob_values_def)
  with wnbf_separate_effect [OF s] False show ?thesis
    by (cases "err = None") auto
qed

lemma wnbf_Add_branches:
  "(\<exists>e. wnbf_Add vs objs tw kv fo = (vs, objs, tw, Some e)) \<or>
   (\<exists>vs1 v. (wnbf_Add vs objs tw kv fo = wnbf_inline vs1 objs tw (kv_K kv) v fo \<or>
             wnbf_Add vs objs tw kv fo = wnbf_separate vs1 objs tw (kv_K kv) v fo) \<and>
            writer vs1 = writer vs \<and> objMeta vs1 = objMeta vs)"
proof (cases "InternalKV_Value kv")
  case (Inl e)
  then show ?thesis by (simp add: wnbf_Add_def)
next
  case (Inr p)
  obtain v co where p: "p = (v, co)" by (cases p)
  define vs0 where "vs0 = (if co then vs\<lparr>wn_buf := take 0 v\<rparr> else vs)"
  define vs0c where "vs0c = vs0\<lparr>requiredInPlaceValueBound := \<lparr>Lower = [], Upper = []\<rparr>\<rparr>"
  have w: "writer vs0 = writer vs" "objMeta vs0 = objMeta vs"
    "writer vs0c = writer vs" "objMeta vs0c = objMeta vs"
    by (simp_all add: vs0_def vs0c_def)
  have "wnbf_Add vs objs tw kv fo = wnbf_inline vs0 objs tw (kv_K kv) v fo \<or>
        wnbf_Add vs objs tw kv fo = wnbf_separate vs0c objs tw (kv_K kv) v fo \<or>
        wnbf_Add vs objs tw kv fo = wnbf_separate vs0 objs tw (kv_K kv) v fo"
    using Inr p by (simp add: wnbf_Add_def Let_def vs0_def vs0c_def)
  with w show ?thesis by blast
qed

lemma wnbf_separate_state:
  assumes "wnbf_separate vs objs tw k v fo = (vs', objs', tw', err)"
    and "blob_file_state objs0 vs objs"
  shows "blob_file_state objs0 vs' objs' \<and>
     (\<exists>es. tw_entries tw' = tw_entries tw @ es \<and> handles_index_zero es \<and>
           ((\<exists>e\<in>set es. is_blob_entry e) \<longrightarrow> writer vs' \<noteq> None)) \<and>
     tw_fails tw' = tw_fails tw"
  using assms
  by (auto simp: wnbf_separate_def tw_AddWithBlobHandle_def blob_file_state_def
      FileWriter_AddValue_def NewFileWriter_def Let_def handles_index_zero_def
      split: option.splits sum.splits prod.splits dest!: tw_call_Inr)

lemma wnbf_inline_state:
  assumes "wnbf_inline vs objs tw k v fo = (vs', objs', tw', err)"
    and "blob_file_state objs0 vs objs"
  shows "blob_file_state objs0 vs' objs' \<and>
     (\<exists>es. tw_entries tw' = tw_entries tw @ es \<and> handles_index_zero es \<and>
           ((\<exists>e\<in>set es. is_blob_entry e) \<longrightarrow> writer vs' \<noteq> None)) \<and>
     tw_fails tw' = tw_fails tw"
  using assms
  by (auto simp: wnbf_inline_def tw_Add_def handles_index_zero_def
      split: sum.splits dest!: tw_call_Inr)

lemma blob_file_state_cong:
  "writer vs1 = writer vs \<Longrightarrow> objMeta vs1 = objMeta vs \<Longrightarrow>
   blob_file_state objs0 vs1 objs = blob_file_state objs0 vs objs"
  by (simp add: blob_file_state_def split: option.splits)

lemma wnbf_Add_state:
  assumes "wnbf_Add vs objs tw kv fo = (vs', objs', tw', err)"
    and "blob_file_state objs0 vs objs"
  shows "blob_file_state objs0 vs' objs' \<and>
     (\<exists>es. tw_entries tw' = tw_entries tw @ es \<and> handles_index_zero es \<and>
           ((\<exists>e\<in>set es. is_blob_entry e) \<longrightarrow> writer vs' \<noteq> None)) \<and>
     tw_fails tw' = tw_fails tw"
proof -
  from wnbf_Add_branches [of vs objs tw kv fo] consider
    (err) e where "wnbf_Add vs objs tw kv fo = (vs, objs, tw, Some e)"
  | (inl) vs1 v where "wnbf_Add vs objs tw kv fo = wnbf_inline vs1 objs tw (kv_K kv) v fo"
      "writer vs1 = writer vs" "objMeta vs1 = objMeta vs"
  | (sep) vs1 v where "wnbf_Add vs objs tw kv fo = wnbf_separate vs1 objs tw (kv_K kv) v fo"
      "writer vs1 = writer vs" "objMeta vs1 = objMeta vs"
    by blast
  then show ?thesis
  proof cases
    case err
    with assms show ?thesis by (auto simp: handles_index_zero_def)
  next
    case inl
    with assms blob_file_state_cong [OF inl(2,3), of objs0 objs]
    show ?thesis using wnbf_inline_state [of vs1 objs tw "kv_K kv" v fo vs' objs' tw' err objs0]
      by simp
  next
    case sep
    with assms blob_file_state_cong [OF sep(2,3), of objs0 objs]
    show ?thesis using wnbf_separate_state [of vs1 objs tw "kv_K kv" v fo vs' objs' tw' err objs0]
      by simp
  qed
qed

lemma writer_stays_open:
  assumes "wnbf_Add vs objs tw kv fo = (vs', objs', tw', err)" and "writer vs \<noteq> None"
  shows "writer vs' \<noteq> None"
proof -
  have sep: "\<And>vs1 v. writer vs1 \<noteq> None \<Longrightarrow>
      wnbf_separate vs1 objs tw (kv_K kv) v fo = (vs', objs', tw', err) \<Longrightarrow> writer vs' \<noteq> None"
    by (auto simp: wnbf_separate_def FileWriter_AddValue_def Let_def
        split: option.splits sum.splits prod.splits)
  have inl: "\<And>vs1 v. writer vs1 \<noteq> None \<Longrightarrow>
      wnbf_inline vs1 objs tw (kv_K kv) v fo = (vs', objs', tw', err) \<Longrightarrow> writer vs' \<noteq> None"
    by (auto simp: wnbf_inline_def split: sum.splits)
  from wnbf_Add_branches [of vs objs tw kv fo] assms sep inl show ?thesis
    by (metis Pair_inject)
qed

lemma wnbf_Adds_state:
  assumes "wnbf_Adds vs objs tw kvs = (vs', objs', tw', err)"
    and "blob_file_state objs0 vs objs"
  shows "blob_file_state objs0 vs' objs' \<and>
     (\<exists>es. tw_entries tw' = tw_entries tw @ es \<and> handles_index_zero es \<and>
           ((\<exists>e\<in>set es. is_blob_entry e) \<longrightarrow> writer vs' \<noteq> None))"
  using assms
proof (induction kvs arbitrary: vs objs tw)
  case Nil
  then show ?case by (simp add: handles_index_zero_def)
next
  case (Cons a kvs)
  obtain kv fo where a: "a = (kv, fo)" by (cases a)
  obtain vs1 objs1 tw1 e1 where step: "wnbf_Add vs objs tw kv fo = (vs1, objs1, tw1, e1)"
    by (cases "wnbf_Add vs objs tw kv fo")
  from wnbf_Add_state [OF step Cons.prems(2)] obtain es1 where
    st1: "blob_file_state objs0 vs1 objs1" and
    es1: "tw_entries tw1 = tw_entries tw @ es1" "handles_index_zero es1"
      "(\<exists>e\<in>set es1. is_blob_entry e) \<longrightarrow> writer vs1 \<noteq> None" by blast
  show ?case
  proof (cases e1)
    case (Some e)
    with Cons.prems(1) a step st1 es1 show ?thesis by auto
  next
    case None
    with Cons.prems(1) a step have rest: "wnbf_Adds vs1 objs1 tw1 kvs = (vs', objs', tw', err)"
      by simp
    from Cons.IH [OF rest st1] obtain es2 where
      st2: "blob_file_state objs0 vs' objs'" and
      es2: "tw_entries tw' = tw_entries tw1 @ es2" "handles_index_zero es2"
        "(\<exists>e\<in>set es2. is_blob_entry e) \<longrightarrow> writer vs' \<noteq> None" by blast
    have keep: "writer vs1 \<noteq> None \<Longrightarrow> writer vs' \<noteq> None"
      using rest
    proof (induction kvs arbitrary: vs1 objs1 tw1)
      case Nil then show ?case by simp
    next
      case (Cons b kvs)
      obtain kv2 fo2 where b: "b = (kv2, fo2)" by (cases b)
      obtain vs2 objs2 tw2 e2 where s2: "wnbf_Add vs1 objs1 tw1 kv2 fo2 = (vs2, objs2, tw2, e2)"
        by (cases "wnbf_Add vs1 objs1 tw1 kv2 fo2")
      from writer_stays_open [OF s2 Cons.prems(1)] have "writer vs2 \<noteq> None" .
      with Cons b s2 show ?case by (cases e2) auto
    qed
    have "tw_entries tw' = tw_entries tw @ (es1 @ es2)" using es1 es2 by simp
    moreover have "handles_index_zero (es1 @ es2)"
      using es1 es2 by (auto simp: handles_index_zero_def)
    moreover have "(\<exists>e\<in>set (es1 @ es2). is_blob_entry e) \<longrightarrow> writer vs' \<noteq> None"
      using es1 es2 keep by auto
    ultimately show ?thesis using st2 by blast
  qed
qed

theorem writeNewBlobFiles_Add_inline_iff_witness:
  "in_place_condition example_writeNewBlobFiles
      (kv_K (in_place_kv [98] InternalKeyKindSet [1, 2, 3, 4])) [1, 2, 3, 4] \<and>
   (\<exists>vs' tw'. wnbf_Add example_writeNewBlobFiles [] example_RawWriter
        (in_place_kv [98] InternalKeyKindSet [1, 2, 3, 4]) False = (vs', [], tw', None) \<and>
      blob_values vs' = [] \<and>
      tw_entries tw' = [TwAdd (kv_K (in_place_kv [98] InternalKeyKindSet [1, 2, 3, 4]))
                          [1, 2, 3, 4] False]) \<and>
   \<not> in_place_condition example_writeNewBlobFiles
      (kv_K (in_place_kv [100] InternalKeyKindSet [1, 2, 3, 4])) [1, 2, 3, 4] \<and>
   (\<exists>vs' objs' tw' h a. wnbf_Add example_writeNewBlobFiles [] example_RawWriter
        (in_place_kv [100] InternalKeyKindSet [1, 2, 3, 4]) False = (vs', objs', tw', None) \<and>
      blob_values vs' = [[1, 2, 3, 4]] \<and>
      tw_entries tw' = [TwAddWithBlobHandle
          (kv_K (in_place_kv [100] InternalKeyKindSet [1, 2, 3, 4])) h a False])"
proof -
  let ?vs = example_writeNewBlobFiles
  let ?kv1 = "in_place_kv [98] InternalKeyKindSet [1, 2, 3, 4]"
  let ?kv2 = "in_place_kv [100] InternalKeyKindSet [1, 2, 3, 4]"
  have c1: "in_place_condition ?vs (kv_K ?kv1) [1, 2, 3, 4]"
    by (simp add: in_place_condition_def within_required_in_place_bound_def too_small_def
        example_writeNewBlobFiles_def in_place_kv_def DefaultComparer_def Split_Prefix_def
        UserKeyPrefixBound_IsEmpty_def)
  have c2: "\<not> in_place_condition ?vs (kv_K ?kv2) [1, 2, 3, 4]"
    by (simp add: in_place_condition_def within_required_in_place_bound_def too_small_def
        example_writeNewBlobFiles_def in_place_kv_def DefaultComparer_def Split_Prefix_def
        UserKeyPrefixBound_IsEmpty_def)
  have v1: "InternalKV_Value ?kv1 = Inr ([1, 2, 3, 4], False)"
    and v2: "InternalKV_Value ?kv2 = Inr ([1, 2, 3, 4], False)"
    by (simp_all add: InternalKV_Value_def in_place_kv_def)
  obtain vs1 objs1 tw1 e1 where
    r1: "wnbf_Add ?vs [] example_RawWriter ?kv1 False = (vs1, objs1, tw1, e1)"
    by (cases "wnbf_Add ?vs [] example_RawWriter ?kv1 False")
  obtain vs2 objs2 tw2 e2 where
    r2: "wnbf_Add ?vs [] example_RawWriter ?kv2 False = (vs2, objs2, tw2, e2)"
    by (cases "wnbf_Add ?vs [] example_RawWriter ?kv2 False")
  have e1: "e1 = None"
    using r1 by (simp add: wnbf_Add_def InternalKV_Value_def Let_def example_writeNewBlobFiles_def in_place_kv_def
        DefaultComparer_def Split_Prefix_def UserKeyPrefixBound_IsEmpty_def wnbf_inline_def
        tw_Add_def tw_call_def example_RawWriter_def)
  have e2: "e2 = None"
    using r2 by (simp add: wnbf_Add_def InternalKV_Value_def Let_def example_writeNewBlobFiles_def in_place_kv_def
        DefaultComparer_def Split_Prefix_def UserKeyPrefixBound_IsEmpty_def wnbf_separate_def
        tw_AddWithBlobHandle_def tw_call_def example_RawWriter_def NewFileWriter_def
        FileWriter_AddValue_def example_writerOpts_def)
  have b0: "blob_values ?vs = []" "tw_entries example_RawWriter = []"
    by (simp_all add: blob_values_def example_writeNewBlobFiles_def example_RawWriter_def)
  from writeNewBlobFiles_Add_inline_iff [OF v1 r1] c1 e1 b0 r1
  have p1: "\<exists>vs' tw'. wnbf_Add ?vs [] example_RawWriter ?kv1 False = (vs', [], tw', None) \<and>
      blob_values vs' = [] \<and> tw_entries tw' = [TwAdd (kv_K ?kv1) [1, 2, 3, 4] False]"
    by simp
  from writeNewBlobFiles_Add_inline_iff [OF v2 r2] c2 e2 b0 r2
  have p2: "\<exists>vs' objs' tw' h a. wnbf_Add ?vs [] example_RawWriter ?kv2 False = (vs', objs', tw', None) \<and>
      blob_values vs' = [[1, 2, 3, 4]] \<and>
      tw_entries tw' = [TwAddWithBlobHandle (kv_K ?kv2) h a False]"
    by auto
  from c1 c2 p1 p2 show ?thesis by blast
qed

text \<open>
  Claim C7. Starting an output with no open blob writer, after any run of \<open>Add\<close> calls:
  every handle written to the sstable has reference index 0; if no blob writer is open
  then no object was created, no handle was written and \<open>FinishOutput\<close> returns the empty
  metadata without error; otherwise exactly one object was created, it holds at least one
  value, and \<open>FinishOutput\<close> either hands back the error of closing the blob file or
  returns exactly one blob reference, to that object, with blob-reference depth 1, and
  leaves no writer open for the next output.
\<close>

theorem writeNewBlobFiles_one_blob_file_per_output:
  assumes "writer vs = None"
    and "wnbf_Adds vs objs tw kvs = (vs', objs', tw', err)"
  shows "\<exists>es. tw_entries tw' = tw_entries tw @ es \<and> handles_index_zero es \<and>
     (if writer vs' = None
      then objs' = objs \<and> (\<forall>e\<in>set es. \<not> is_blob_entry e) \<and>
           wnbf_FinishOutput vs' now = (vs', Inr empty_ValueSeparationMetadata)
      else (\<exists>om. objs' = objs @ [om] \<and> blob_values vs' \<noteq> [] \<and>
             (case wnbf_FinishOutput vs' now of
                (vs'', Inl e) \<Rightarrow>
                  (\<exists>w. writer vs' = Some w \<and> FileWriter_Close w = Inl e)
              | (vs'', Inr m) \<Rightarrow>
                  writer vs'' = None \<and> length (BlobReferences m) = 1 \<and>
                  map br_FileNum (BlobReferences m) = [om_DiskFileNum om] \<and>
                  BlobReferenceDepth m = 1)))"
proof -
  from assms(1) have "blob_file_state objs vs objs"
    by (simp add: blob_file_state_def)
  from wnbf_Adds_state [OF assms(2) this] obtain es where
    st: "blob_file_state objs vs' objs'" and
    es: "tw_entries tw' = tw_entries tw @ es" "handles_index_zero es"
      "(\<exists>e\<in>set es. is_blob_entry e) \<longrightarrow> writer vs' \<noteq> None" by blast
  show ?thesis
  proof (cases "writer vs'")
    case None
    with st es show ?thesis
      by (auto simp: blob_file_state_def wnbf_FinishOutput_def)
  next
    case (Some w)
    with st have o: "objs' = objs @ [objMeta vs']" "fw_values w \<noteq> []" 
      by (simp_all add: blob_file_state_def)
    have "case wnbf_FinishOutput vs' now of
                (vs'', Inl e) \<Rightarrow>
                  (\<exists>w. writer vs' = Some w \<and> FileWriter_Close w = Inl e)
              | (vs'', Inr m) \<Rightarrow>
                  writer vs'' = None \<and> length (BlobReferences m) = 1 \<and>
                  map br_FileNum (BlobReferences m) = [om_DiskFileNum (objMeta vs')] \<and>
                  BlobReferenceDepth m = 1"
      using Some by (cases "FileWriter_Close w") (simp_all add: wnbf_FinishOutput_def)
    with o Some es show ?thesis
      by (auto simp: blob_values_def)
  qed
qed

theorem writeNewBlobFiles_one_blob_file_per_output_witness:
  "writer example_writeNewBlobFiles = None \<and>
   (\<exists>vs' om tw' es m.
      wnbf_Adds example_writeNewBlobFiles [] example_RawWriter
        [(in_place_kv [100] InternalKeyKindSet [1, 2], False),
         (in_place_kv [101] InternalKeyKindSet [1, 2, 3, 4], False),
         (in_place_kv [102] InternalKeyKindSet [5, 6, 7], True)] = (vs', [om], tw', None) \<and>
      tw_entries tw' = es \<and> handles_index_zero es \<and> writer vs' \<noteq> None \<and>
      wnbf_FinishOutput vs' 0 = (vs'\<lparr>writer := None\<rparr>, Inr m) \<and>
      map br_FileNum (BlobReferences m) = [om_DiskFileNum om] \<and>
      BlobReferenceDepth m = 1)"
proof -
  let ?kvs = "[(in_place_kv [100] InternalKeyKindSet [1, 2], False),
         (in_place_kv [101] InternalKeyKindSet [1, 2, 3, 4], False),
         (in_place_kv [102] InternalKeyKindSet [5, 6, 7], True)]"
  have w0: "writer example_writeNewBlobFiles = None"
    by (simp add: example_writeNewBlobFiles_def)
  obtain vs' objs' tw' err where
    r: "wnbf_Adds example_writeNewBlobFiles [] example_RawWriter ?kvs = (vs', objs', tw', err)"
    by (cases "wnbf_Adds example_writeNewBlobFiles [] example_RawWriter ?kvs")
  have ev: "err = None \<and> writer vs' \<noteq> None \<and>
      (\<exists>m. wnbf_FinishOutput vs' 0 = (vs'\<lparr>writer := None\<rparr>, Inr m))"
    using r by (auto simp add: wnbf_Add_def InternalKV_Value_def Let_def
        example_writeNewBlobFiles_def in_place_kv_def
        DefaultComparer_def Split_Prefix_def UserKeyPrefixBound_IsEmpty_def wnbf_separate_def
        wnbf_inline_def tw_Add_def
        tw_AddWithBlobHandle_def tw_call_def example_RawWriter_def NewFileWriter_def
        FileWriter_AddValue_def example_writerOpts_def wnbf_FinishOutput_def
        FileWriter_Close_def)
  have t0: "tw_entries example_RawWriter = []"
    by (simp add: example_RawWriter_def)
  from writeNewBlobFiles_one_blob_file_per_output [OF w0 r, of 0] ev r w0 t0
  show ?thesis by auto
qed

section \<open>Properties of preserveBlobReferences\<close>

lemma scanReferences_eq:
  "scanReferences rs fn i =
     (if fn \<in> set (map br_FileNum rs) then Some (i + position_of fn (map br_FileNum rs)) else None)"
  by (induction rs arbitrary: i) auto

lemma position_of_less: "x \<in> set xs \<Longrightarrow> position_of x xs < length xs"
  by (induction xs) auto

lemma position_of_append: "x \<in> set xs \<Longrightarrow> position_of x (xs @ ys) = position_of x xs"
  by (induction xs) auto

lemma position_of_snoc: "x \<notin> set xs \<Longrightarrow> position_of x (xs @ [x]) = length xs"
  by (induction xs) auto

lemma nth_position_of: "x \<in> set xs \<Longrightarrow> xs ! position_of x xs = x"
  by (induction xs) auto

lemma position_of_image:
  "distinct xs \<Longrightarrow> (\<lambda>x. position_of x xs) ` set xs = {0..<length xs}"
proof (induction xs)
  case Nil
  then show ?case by simp
next
  case (Cons a xs)
  have "(\<lambda>x. position_of x (a # xs)) ` set xs = Suc ` (\<lambda>x. position_of x xs) ` set xs"
    using Cons.prems by (auto simp: image_iff)
  with Cons show ?case
    by (auto simp: image_Suc_atLeastLessThan atLeast0_lessThan_Suc_eq_insert_0 simp del: image_Suc_atLeastLessThan)
qed

lemma first_seen_append: "first_seen acc (xs @ ys) = first_seen (first_seen acc xs) ys"
  by (induction xs arbitrary: acc) auto

lemma first_seen_prefix: "\<exists>zs. first_seen acc xs = acc @ zs"
  by (induction xs arbitrary: acc) (auto, metis append.assoc)

lemma set_first_seen: "set (first_seen acc xs) = set acc \<union> set xs"
  by (induction xs arbitrary: acc) auto

lemma distinct_first_seen: "distinct acc \<Longrightarrow> distinct (first_seen acc xs)"
  by (induction xs arbitrary: acc) auto

lemma findInputBlobMetadata_found:
  "findInputBlobMetadata vs fn = (idx, True) \<Longrightarrow>
     idx < length (inputBlobMetadatas vs) \<and> bm_FileNum (inputBlobMetadatas vs ! idx) = fn"
  by (auto simp: findInputBlobMetadata_def Let_def)

lemma pbr_reference_Inr:
  assumes "pbr_reference vs fn = Inr (vs1, refIdx)"
  shows "ref_files vs1 = first_seen (ref_files vs) [fn] \<and>
     refIdx = position_of fn (ref_files vs1) \<and> fn \<in> set (ref_files vs1) \<and>
     inputBlobMetadatas vs1 = inputBlobMetadatas vs \<and>
     outputBlobReferenceDepth vs1 = outputBlobReferenceDepth vs \<and>
     totalValueSize vs1 = totalValueSize vs \<and>
     sum_list (map br_ValueSize (currReferences vs1)) =
       sum_list (map br_ValueSize (currReferences vs)) \<and>
     (fn \<in> set (ref_files vs) \<or> fn \<in> bm_FileNum ` set (inputBlobMetadatas vs))"
proof (cases "fn \<in> set (ref_files vs)")
  case True
  with assms show ?thesis
    by (auto simp: pbr_reference_def scanReferences_eq ref_files_def)
next
  case False
  then have scan: "scanReferences (currReferences vs) fn 0 = None"
    by (simp add: scanReferences_eq ref_files_def)
  obtain idx found where f: "findInputBlobMetadata vs fn = (idx, found)"
    by (cases "findInputBlobMetadata vs fn")
  with assms scan have found by (auto simp: pbr_reference_def split: if_splits)
  with f findInputBlobMetadata_found [of vs fn idx]
  have idx: "idx < length (inputBlobMetadatas vs)" "bm_FileNum (inputBlobMetadatas vs ! idx) = fn"
    by simp_all
  then have "fn \<in> bm_FileNum ` set (inputBlobMetadatas vs)"
    by (metis image_eqI nth_mem)
  with assms scan f \<open>found\<close> False show ?thesis
    by (auto simp: pbr_reference_def ref_files_def position_of_snoc)
qed

lemma pbr_write_handle_None:
  assumes "pbr_write_handle deps vs tw kv f refIdx fo = (vs', tw', None)"
    and "refIdx < length (currReferences vs)"
  shows "ref_files vs' = ref_files vs \<and>
     tw_entries tw' = tw_entries tw @
       [TwAddWithBlobHandle (kv_K kv)
          \<lparr>ReferenceIndex = word_of_nat refIdx, ih_ValueLen = ValueLen (Attribute f),
           ih_HandleSuffix = DecodeHandleSuffix deps (ValueOrHandle (kv_V kv))\<rparr>
          (ShortAttr (Attribute f)) fo] \<and>
     tw_fails tw' = tw_fails tw \<and>
     inputBlobMetadatas vs' = inputBlobMetadatas vs \<and>
     outputBlobReferenceDepth vs' = outputBlobReferenceDepth vs"
  using assms
  by (auto simp: pbr_write_handle_def tw_AddWithBlobHandle_def Let_def ref_files_def
      map_update list_update_same_conv
      split: sum.splits dest!: tw_call_Inr)

lemma pbr_passthrough_None:
  assumes "pbr_passthrough vs tw kv fo = (vs', tw', None)"
  shows "ref_files vs' = ref_files vs \<and>
     (\<exists>v co. InternalKV_Value kv = Inr (v, co) \<and> tw_entries tw' = tw_entries tw @ [TwAdd (kv_K kv) v fo]) \<and>
     tw_fails tw' = tw_fails tw \<and>
     inputBlobMetadatas vs' = inputBlobMetadatas vs \<and>
     outputBlobReferenceDepth vs' = outputBlobReferenceDepth vs \<and>
     currReferences vs' = currReferences vs \<and> totalValueSize vs' = totalValueSize vs"
  using assms
  by (auto simp: pbr_passthrough_def tw_Add_def Let_def ref_files_def
      split: sum.splits prod.splits if_splits dest!: tw_call_Inr)

lemma pbr_Add_None:
  assumes "pbr_Add deps vs tw kv fo = (vs', tw', None)"
  shows "ref_files vs' = first_seen (ref_files vs) (blob_file_nums [(kv, fo)]) \<and>
     tw_entries tw' = tw_entries tw @ [expected_entry deps (ref_files vs') (kv, fo)] \<and>
     tw_fails tw' = tw_fails tw \<and>
     inputBlobMetadatas vs' = inputBlobMetadatas vs \<and>
     outputBlobReferenceDepth vs' = outputBlobReferenceDepth vs \<and>
     set (ref_files vs') \<subseteq> set (ref_files vs) \<union> bm_FileNum ` set (inputBlobMetadatas vs)"
proof (cases "IsBlobValueHandle (kv_V kv)")
  case False
  with assms have "pbr_passthrough vs tw kv fo = (vs', tw', None)"
    by (simp add: pbr_Add_def)
  from pbr_passthrough_None [OF this] False show ?thesis
    by (auto simp: expected_entry_def)
next
  case True
  then obtain f where f: "Fetcher (kv_V kv) = Some f"
    by (auto simp: IsBlobValueHandle_def split: option.splits)
  from assms True f obtain vs1 refIdx where
    r: "pbr_reference vs (BlobFileNum f) = Inr (vs1, refIdx)" and
    w: "pbr_write_handle deps vs1 tw kv f refIdx fo = (vs', tw', None)"
    by (auto simp: pbr_Add_def split: sum.splits option.splits if_splits)
  note r' = pbr_reference_Inr [OF r]
  from r' have "refIdx = position_of (BlobFileNum f) (ref_files vs1)"
    and "BlobFileNum f \<in> set (ref_files vs1)" by simp_all
  with position_of_less [of "BlobFileNum f" "ref_files vs1"]
  have "refIdx < length (ref_files vs1)" by simp
  then have "refIdx < length (currReferences vs1)" by (simp add: ref_files_def)
  note w' = pbr_write_handle_None [OF w this]
  from r' w' True f show ?thesis
    by (auto simp: expected_entry_def)
qed

lemma blob_file_nums_Cons:
  "blob_file_nums (p # rest) = blob_file_nums [p] @ blob_file_nums rest"
  by (cases p) (auto split: option.splits)

lemma expected_entry_stable:
  assumes "set (blob_file_nums [p]) \<subseteq> set files"
  shows "expected_entry deps (files @ zs) p = expected_entry deps files p"
proof -
  obtain kv fo where p: "p = (kv, fo)" by (cases p)
  show ?thesis
    using assms unfolding p
    by (auto simp: expected_entry_def position_of_append split: option.splits)
qed

lemma pbr_Adds_None:
  assumes "pbr_Adds deps vs tw kvs = (vs', tw', None)"
  shows "ref_files vs' = first_seen (ref_files vs) (blob_file_nums kvs) \<and>
     tw_entries tw' = tw_entries tw @ map (expected_entry deps (ref_files vs')) kvs \<and>
     inputBlobMetadatas vs' = inputBlobMetadatas vs \<and>
     outputBlobReferenceDepth vs' = outputBlobReferenceDepth vs \<and>
     set (ref_files vs') \<subseteq> set (ref_files vs) \<union> bm_FileNum ` set (inputBlobMetadatas vs)"
  using assms
proof (induction kvs arbitrary: vs tw)
  case Nil
  then show ?case by simp
next
  case (Cons p kvs)
  obtain kv fo where p: "p = (kv, fo)" by (cases p)
  obtain vs1 tw1 e1 where step: "pbr_Add deps vs tw kv fo = (vs1, tw1, e1)"
    by (cases "pbr_Add deps vs tw kv fo")
  with Cons.prems p have e1: "e1 = None" by (cases e1) auto
  with Cons.prems p step have rest: "pbr_Adds deps vs1 tw1 kvs = (vs', tw', None)" by simp
  note s = pbr_Add_None [OF step [unfolded e1]]
  note r = Cons.IH [OF rest]
  from s have s1: "ref_files vs1 = first_seen (ref_files vs) (blob_file_nums [p])"
    and s2: "tw_entries tw1 = tw_entries tw @ [expected_entry deps (ref_files vs1) p]"
    and s3: "inputBlobMetadatas vs1 = inputBlobMetadatas vs"
      "outputBlobReferenceDepth vs1 = outputBlobReferenceDepth vs"
    and s4: "set (ref_files vs1) \<subseteq> set (ref_files vs) \<union> bm_FileNum ` set (inputBlobMetadatas vs)"
    unfolding p by blast+
  from r have r1: "ref_files vs' = first_seen (ref_files vs1) (blob_file_nums kvs)"
    and r2: "tw_entries tw' = tw_entries tw1 @ map (expected_entry deps (ref_files vs')) kvs"
    and r3: "inputBlobMetadatas vs' = inputBlobMetadatas vs1"
      "outputBlobReferenceDepth vs' = outputBlobReferenceDepth vs1"
    and r4: "set (ref_files vs') \<subseteq> set (ref_files vs1) \<union> bm_FileNum ` set (inputBlobMetadatas vs1)"
    by blast+
  from first_seen_prefix [of "ref_files vs1" "blob_file_nums kvs"] r1
  obtain zs where zs: "ref_files vs' = ref_files vs1 @ zs" by auto
  have "set (blob_file_nums [p]) \<subseteq> set (ref_files vs1)"
    unfolding s1 set_first_seen by blast
  from expected_entry_stable [OF this, of deps zs] zs
  have stable: "expected_entry deps (ref_files vs') p = expected_entry deps (ref_files vs1) p"
    by simp
  have "ref_files vs' = first_seen (ref_files vs) (blob_file_nums (p # kvs))"
    unfolding r1 s1 blob_file_nums_Cons [of p kvs] first_seen_append ..
  moreover have "tw_entries tw' = tw_entries tw @ map (expected_entry deps (ref_files vs')) (p # kvs)"
    unfolding r2 s2 using stable by simp
  moreover have "set (ref_files vs') \<subseteq> set (ref_files vs) \<union> bm_FileNum ` set (inputBlobMetadatas vs)"
    using r4 s4 s3 by auto
  ultimately show ?case using s3 r3 by simp
qed

lemma pbr_FinishOutput_eq:
  "\<exists>m. pbr_FinishOutput vs = (vs\<lparr>currReferences := []\<rparr>, Inr m) \<and>
       BlobReferences m = currReferences vs \<and>
       BlobReferenceSize m = referenceSize_loop (currReferences vs) 0 \<and>
       BlobReferenceDepth m =
         min (outputBlobReferenceDepth vs) (int (length (currReferences vs)))"
  by (simp add: pbr_FinishOutput_def Let_def)

text \<open>
  Claim C2. Start an output with no current references and run \<open>Add\<close> over values, every
  call succeeding, where the inputs name at most \<open>2^32\<close> blob files. Then the sstable
  received, for every value in order, what the specification expects: a value that is not
  a blob handle unchanged through \<open>Add\<close>, and for a blob handle a handle whose reference
  index is the position of its blob file in the order of first appearance among the blob
  handles of the run (the conversion to 32 bits loses nothing). The positions used are
  exactly \<open>0, \<dots>, k - 1\<close> for the \<open>k\<close> files of that order, \<open>FinishOutput\<close> returns the
  references in that order, and it leaves no current reference, so that the next output
  starts at 0 again.
\<close>

theorem preserveBlobReferences_dense_reference_indices:
  assumes "currReferences vs = []"
    and "length (inputBlobMetadatas vs) \<le> 2 ^ 32"
    and "pbr_Adds deps vs tw kvs = (vs', tw', None)"
    and "files = first_appearances (blob_file_nums kvs)"
  shows "tw_entries tw' = tw_entries tw @ map (expected_entry deps files) kvs \<and>
     (\<forall>fn\<in>set (blob_file_nums kvs).
         unat (word_of_nat (position_of fn files) :: uint32) = position_of fn files) \<and>
     (\<lambda>fn. position_of fn files) ` set (blob_file_nums kvs) = {0..<length files} \<and>
     (\<exists>vs'' m. pbr_FinishOutput vs' = (vs'', Inr m) \<and>
        map br_FileNum (BlobReferences m) = files \<and> currReferences vs'' = [])"
proof -
  from assms(1) have e: "ref_files vs = []" by (simp add: ref_files_def)
  from pbr_Adds_None [OF assms(3)]
  have r1: "ref_files vs' = first_seen (ref_files vs) (blob_file_nums kvs)"
    and r2: "tw_entries tw' = tw_entries tw @ map (expected_entry deps (ref_files vs')) kvs"
    and r3: "set (ref_files vs') \<subseteq> set (ref_files vs) \<union> bm_FileNum ` set (inputBlobMetadatas vs)"
    by blast+
  from r1 have files: "ref_files vs' = files"
    unfolding assms(4) e first_appearances_def .
  have d: "distinct files" and sf: "set files = set (blob_file_nums kvs)"
    using assms(4) distinct_first_seen [of "[]" "blob_file_nums kvs"]
    by (simp_all add: first_appearances_def set_first_seen)
  from r3 e have "set (ref_files vs') \<subseteq> bm_FileNum ` set (inputBlobMetadatas vs)" by simp
  then have "set files \<subseteq> bm_FileNum ` set (inputBlobMetadatas vs)"
    unfolding files .
  then have "card (set files) \<le> card (bm_FileNum ` set (inputBlobMetadatas vs))"
    by (simp add: card_mono)
  also have "\<dots> \<le> length (inputBlobMetadatas vs)"
    by (metis card_image_le card_length List.finite_set le_trans)
  finally have len: "length files \<le> 2 ^ 32"
    using d assms(2) by (simp add: distinct_card)
  have small: "\<forall>fn\<in>set (blob_file_nums kvs).
      unat (word_of_nat (position_of fn files) :: uint32) = position_of fn files"
  proof
    fix fn assume "fn \<in> set (blob_file_nums kvs)"
    with sf have "position_of fn files < length files" by (simp add: position_of_less)
    with len have "position_of fn files < 2 ^ 32" by simp
    then show "unat (word_of_nat (position_of fn files) :: uint32) = position_of fn files"
      by (simp add: unsigned_of_nat take_bit_nat_eq_self)
  qed
  from pbr_FinishOutput_eq [of vs'] files
  have fin: "\<exists>vs'' m. pbr_FinishOutput vs' = (vs'', Inr m) \<and>
        map br_FileNum (BlobReferences m) = files \<and> currReferences vs'' = []"
    by (auto simp: ref_files_def)
  from r2 files have "tw_entries tw' = tw_entries tw @ map (expected_entry deps files) kvs"
    by simp
  with small position_of_image [OF d] sf fin show ?thesis by simp
qed

lemma references_total_update:
  "i < length refs \<Longrightarrow>
   references_total (refs[i := (refs ! i)\<lparr>br_ValueSize := br_ValueSize (refs ! i) + d\<rparr>]) =
     references_total refs + d"
  unfolding references_total_def
proof (induction refs arbitrary: i)
  case Nil
  then show ?case by simp
next
  case (Cons r refs)
  then show ?case by (cases i) (simp_all add: algebra_simps)
qed

lemma referenceSize_loop_eq: "referenceSize_loop refs acc = acc + references_total refs"
  by (induction refs arbitrary: acc) (simp_all add: references_total_def algebra_simps)

lemma pbr_reference_state:
  assumes "pbr_reference vs fn = Inr (vs1, refIdx)"
  shows "(\<exists>fns. ref_files vs1 = first_seen (ref_files vs) fns) \<and> refIdx < length (currReferences vs1) \<and>
     outputBlobReferenceDepth vs1 = outputBlobReferenceDepth vs \<and>
     totalValueSize vs1 = totalValueSize vs \<and>
     references_total (currReferences vs1) = references_total (currReferences vs)"
proof -
  note r = pbr_reference_Inr [OF assms]
  from r have "refIdx = position_of fn (ref_files vs1)" "fn \<in> set (ref_files vs1)" by simp_all
  with position_of_less [of fn "ref_files vs1"] have "refIdx < length (currReferences vs1)"
    by (simp add: ref_files_def)
  with r show ?thesis unfolding references_total_def by blast
qed

lemma pbr_write_handle_state:
  assumes "pbr_write_handle deps vs tw kv f refIdx fo = (vs', tw', err)"
    and "refIdx < length (currReferences vs)"
  shows "ref_files vs' = ref_files vs \<and>
     outputBlobReferenceDepth vs' = outputBlobReferenceDepth vs \<and>
     (totalValueSize_invariant vs \<longrightarrow> totalValueSize_invariant vs')"
  using assms
  by (auto simp: pbr_write_handle_def Let_def ref_files_def map_update list_update_same_conv
      totalValueSize_invariant_def references_total_update
      split: sum.splits)

lemma pbr_passthrough_state:
  assumes "pbr_passthrough vs tw kv fo = (vs', tw', err)"
  shows "currReferences vs' = currReferences vs \<and> totalValueSize vs' = totalValueSize vs \<and>
     outputBlobReferenceDepth vs' = outputBlobReferenceDepth vs"
  using assms
  by (auto simp: pbr_passthrough_def Let_def split: sum.splits prod.splits if_splits)

lemma first_seen_Nil_ex: "\<exists>fns. xs = first_seen xs fns"
  by (rule exI [of _ "[]"]) simp

lemma pbr_Add_state:
  assumes "pbr_Add deps vs tw kv fo = (vs', tw', err)"
  shows "(\<exists>fns. ref_files vs' = first_seen (ref_files vs) fns) \<and>
     outputBlobReferenceDepth vs' = outputBlobReferenceDepth vs \<and>
     (totalValueSize_invariant vs \<longrightarrow> totalValueSize_invariant vs')"
proof (cases "IsBlobValueHandle (kv_V kv)")
  case False
  with assms have "pbr_passthrough vs tw kv fo = (vs', tw', err)" by (simp add: pbr_Add_def)
  from pbr_passthrough_state [OF this] first_seen_Nil_ex [of "ref_files vs"] show ?thesis
    by (simp add: ref_files_def totalValueSize_invariant_def)
next
  case True
  show ?thesis
  proof (cases "Fetcher (kv_V kv)")
    case None
    with assms True first_seen_Nil_ex [of "ref_files vs"] show ?thesis
      by (simp add: pbr_Add_def)
  next
    case (Some f)
    show ?thesis
    proof (cases "pbr_reference vs (BlobFileNum f)")
      case (Inl e)
      with assms True Some first_seen_Nil_ex [of "ref_files vs"] show ?thesis
        by (simp add: pbr_Add_def)
    next
      case (Inr p)
      obtain vs1 refIdx where p: "p = (vs1, refIdx)" by (cases p)
      note r = pbr_reference_state [OF Inr [unfolded p]]
      from r have inv1: "totalValueSize_invariant vs \<longrightarrow> totalValueSize_invariant vs1"
        by (simp add: totalValueSize_invariant_def)
      from r have idx: "refIdx < length (currReferences vs1)" by simp
      from assms True Some Inr p consider
        (stop) "vs' = vs1" | (handle) "pbr_write_handle deps vs1 tw kv f refIdx fo = (vs', tw', err)"
        by (auto simp: pbr_Add_def split: option.splits if_splits)
      then show ?thesis
      proof cases
        case stop
        with r inv1 show ?thesis by simp
      next
        case handle
        from pbr_write_handle_state [OF handle idx] r inv1 show ?thesis by auto
      qed
    qed
  qed
qed

lemma pbr_Adds_state:
  assumes "pbr_Adds deps vs tw kvs = (vs', tw', err)"
  shows "(\<exists>fns. ref_files vs' = first_seen (ref_files vs) fns) \<and>
     outputBlobReferenceDepth vs' = outputBlobReferenceDepth vs \<and>
     (totalValueSize_invariant vs \<longrightarrow> totalValueSize_invariant vs')"
  using assms
proof (induction kvs arbitrary: vs tw)
  case Nil
  with first_seen_Nil_ex [of "ref_files vs"] show ?case by simp
next
  case (Cons p kvs)
  obtain kv fo where p: "p = (kv, fo)" by (cases p)
  obtain vs1 tw1 e1 where step: "pbr_Add deps vs tw kv fo = (vs1, tw1, e1)"
    by (cases "pbr_Add deps vs tw kv fo")
  note s = pbr_Add_state [OF step]
  show ?case
  proof (cases e1)
    case (Some e)
    with Cons.prems p step s show ?thesis by auto
  next
    case None
    with Cons.prems p step have "pbr_Adds deps vs1 tw1 kvs = (vs', tw', err)" by simp
    note r = Cons.IH [OF this]
    from s r obtain fns1 fns2 where "ref_files vs1 = first_seen (ref_files vs) fns1"
      "ref_files vs' = first_seen (ref_files vs1) fns2" by blast
    then have "ref_files vs' = first_seen (ref_files vs) (fns1 @ fns2)"
      by (simp add: first_seen_append)
    then have "\<exists>fns. ref_files vs' = first_seen (ref_files vs) fns" ..
    with s r show ?thesis by simp
  qed
qed

text \<open>
  Claim C3. From any state whose current references name distinct blob files (the empty
  list at the start of an output), after any run of \<open>Add\<close> calls, \<open>FinishOutput\<close> returns
  metadata whose blob-reference depth is the minimum of the depth carried from the inputs
  and the number of distinct blob files among the returned references; it never exceeds
  the input depth, which the struct keeps unchanged.
\<close>

theorem preserveBlobReferences_depth_only_reduced:
  assumes "distinct (map br_FileNum (currReferences vs0))"
    and "pbr_Adds deps vs0 tw kvs = (vs, tw', err)"
    and "pbr_FinishOutput vs = (vs', r)"
  shows "\<exists>m. r = Inr m \<and>
     BlobReferenceDepth m =
       min (outputBlobReferenceDepth vs0) (int (card (br_FileNum ` set (BlobReferences m)))) \<and>
     BlobReferenceDepth m \<le> outputBlobReferenceDepth vs0 \<and>
     outputBlobReferenceDepth vs' = outputBlobReferenceDepth vs0"
proof -
  from pbr_Adds_state [OF assms(2)] obtain fns where
    f: "ref_files vs = first_seen (ref_files vs0) fns" and
    d: "outputBlobReferenceDepth vs = outputBlobReferenceDepth vs0" by blast
  from assms(1) f have "distinct (ref_files vs)"
    by (simp add: distinct_first_seen ref_files_def)
  then have "card (br_FileNum ` set (currReferences vs)) = length (currReferences vs)"
    using distinct_card [of "ref_files vs"] by (simp add: ref_files_def)
  with pbr_FinishOutput_eq [of vs] assms(3) d show ?thesis by auto
qed

lemma pbr_FinishOutput_totalValueSize:
  "totalValueSize (fst (pbr_FinishOutput vs)) = totalValueSize vs"
  by (simp add: pbr_FinishOutput_def Let_def)

lemma pbr_FinishOutput_BlobReferenceSize:
  "pbr_FinishOutput vs = (vs', Inr m) \<Longrightarrow>
     BlobReferenceSize m = references_total (BlobReferences m) \<and> currReferences vs' = []"
  by (auto simp: pbr_FinishOutput_def Let_def referenceSize_loop_eq)

text \<open>The example run, evaluated.\<close>

lemma example_find:
  assumes "inputBlobMetadatas vs = inputBlobMetadatas example_preserveBlobReferences"
  shows "findInputBlobMetadata vs 5 = (1, True)" and "findInputBlobMetadata vs 3 = (0, True)"
proof -
  have "findInputBlobMetadata example_preserveBlobReferences 5 = (1, True)"
    and "findInputBlobMetadata example_preserveBlobReferences 3 = (0, True)"
    by code_simp+
  then show "findInputBlobMetadata vs 5 = (1, True)" and "findInputBlobMetadata vs 3 = (0, True)"
    using assms by (simp_all add: findInputBlobMetadata_def)
qed

lemma example_run:
  "\<exists>vs' tw'. pbr_Adds example_deps example_preserveBlobReferences example_RawWriter example_values
      = (vs', tw', None) \<and> totalValueSize vs' = 12 \<and>
      map br_FileNum (currReferences vs') = [5, 3] \<and>
      map br_ValueSize (currReferences vs') = [6, 6]"
  by (simp add: example_values_def example_deps_def example_preserveBlobReferences_def
      example_RawWriter_def blob_handle_kv_def in_place_kv_def pbr_Add_def IsBlobValueHandle_def
      pbr_passthrough_def pbr_reference_def example_find
      wrong_reference_index_def pbr_write_handle_def InternalKV_Value_def
      tw_Add_def tw_AddWithBlobHandle_def tw_call_def Let_def example_BlobFileMetadata_def)

lemma example_files: "first_appearances (blob_file_nums example_values) = [5, 3]"
  by (simp add: first_appearances_def example_values_def blob_handle_kv_def in_place_kv_def
      IsBlobValueHandle_def)

theorem preserveBlobReferences_dense_reference_indices_witness:
  "currReferences example_preserveBlobReferences = [] \<and>
   length (inputBlobMetadatas example_preserveBlobReferences) \<le> 2 ^ 32 \<and>
   (\<exists>vs' tw'.
      pbr_Adds example_deps example_preserveBlobReferences example_RawWriter example_values
        = (vs', tw', None) \<and>
      first_appearances (blob_file_nums example_values) = [5, 3] \<and>
      map entry_refidx (tw_entries tw') = [Some 0, None, Some 1, Some 0] \<and>
      (\<lambda>fn. position_of fn [5, 3]) ` set (blob_file_nums example_values) = {0..<2} \<and>
      (\<exists>vs'' m. pbr_FinishOutput vs' = (vs'', Inr m) \<and>
         map br_FileNum (BlobReferences m) = [5, 3] \<and> currReferences vs'' = []))"
proof -
  have h1: "currReferences example_preserveBlobReferences = []"
    and h2: "length (inputBlobMetadatas example_preserveBlobReferences) \<le> 2 ^ 32"
    by (simp_all add: example_preserveBlobReferences_def)
  from example_run obtain vs' tw' where
    run: "pbr_Adds example_deps example_preserveBlobReferences example_RawWriter example_values
        = (vs', tw', None)" by blast
  note t = preserveBlobReferences_dense_reference_indices
    [OF h1 h2 run example_files [symmetric]]
  from t have "tw_entries tw' =
      tw_entries example_RawWriter @ map (expected_entry example_deps [5, 3]) example_values"
    by blast
  then have "map entry_refidx (tw_entries tw') = [Some 0, None, Some 1, Some 0]"
    by (simp add: example_RawWriter_def example_values_def expected_entry_def
        blob_handle_kv_def in_place_kv_def IsBlobValueHandle_def)
  with t h1 h2 run example_files show ?thesis by auto
qed

theorem preserveBlobReferences_depth_only_reduced_witness:
  "distinct (map br_FileNum (currReferences example_preserveBlobReferences)) \<and>
   outputBlobReferenceDepth example_preserveBlobReferences = 3 \<and>
   (\<exists>vs tw' vs' m.
      pbr_Adds example_deps example_preserveBlobReferences example_RawWriter example_values
        = (vs, tw', None) \<and>
      pbr_FinishOutput vs = (vs', Inr m) \<and> BlobReferenceDepth m = 2 \<and>
      outputBlobReferenceDepth vs' = 3)"
proof -
  have h1: "distinct (map br_FileNum (currReferences example_preserveBlobReferences))"
    and d: "outputBlobReferenceDepth example_preserveBlobReferences = 3"
    by (simp_all add: example_preserveBlobReferences_def)
  from example_run obtain vs tw' where
    run: "pbr_Adds example_deps example_preserveBlobReferences example_RawWriter example_values
        = (vs, tw', None)"
    and files: "map br_FileNum (currReferences vs) = [5, 3]" by auto
  obtain vs' r where fin: "pbr_FinishOutput vs = (vs', r)" by (cases "pbr_FinishOutput vs")
  from preserveBlobReferences_depth_only_reduced [OF h1 run fin] obtain m where
    m: "r = Inr m"
      "BlobReferenceDepth m =
         min (outputBlobReferenceDepth example_preserveBlobReferences)
           (int (card (br_FileNum ` set (BlobReferences m))))"
      "outputBlobReferenceDepth vs' = outputBlobReferenceDepth example_preserveBlobReferences"
    by blast
  from fin m(1) have "BlobReferences m = currReferences vs"
    by (auto simp: pbr_FinishOutput_def Let_def)
  then have "br_FileNum ` set (BlobReferences m) = set [5, 3]"
    using files by (metis set_map)
  then have "card (br_FileNum ` set (BlobReferences m)) = 2" by simp
  with m d have "BlobReferenceDepth m = 2" "outputBlobReferenceDepth vs' = 3" by simp_all
  with h1 d run fin m(1) show ?thesis by blast
qed

text \<open>
  Claim C10. The field comment says that \<open>totalValueSize\<close> is the sum of the \<open>ValueSize\<close>s of
  \<open>currReferences\<close>. Every \<open>Add\<close> keeps that equation (\<open>pbr_Adds_state\<close>), and
  \<open>FinishOutput\<close> returns as \<open>BlobReferenceSize\<close> the sum over the references it returns
  and empties the current references (\<open>pbr_FinishOutput_BlobReferenceSize\<close>). But
  \<open>FinishOutput\<close> leaves \<open>totalValueSize\<close> as it was (\<open>pbr_FinishOutput_totalValueSize\<close>):
  after the example run the equation holds with total 12, and after \<open>FinishOutput\<close> there
  is no current reference while \<open>totalValueSize\<close>, and with it \<open>EstimatedReferenceSize\<close>,
  is still 12.
\<close>

theorem preserveBlobReferences_FinishOutput_keeps_totalValueSize:
  "\<exists>vs tw' vs' m.
      pbr_Adds example_deps example_preserveBlobReferences example_RawWriter example_values
        = (vs, tw', None) \<and>
      totalValueSize_invariant vs \<and>
      pbr_FinishOutput vs = (vs', Inr m) \<and>
      BlobReferenceSize m = 12 \<and>
      currReferences vs' = [] \<and>
      totalValueSize vs' = 12 \<and>
      pbr_EstimatedReferenceSize vs' = 12 \<and>
      \<not> totalValueSize_invariant vs'"
proof -
  from example_run obtain vs tw' where
    run: "pbr_Adds example_deps example_preserveBlobReferences example_RawWriter example_values
        = (vs, tw', None)"
    and total: "totalValueSize vs = 12"
    and sizes: "map br_ValueSize (currReferences vs) = [6, 6]" by auto
  from total sizes have inv: "totalValueSize_invariant vs"
    by (simp add: totalValueSize_invariant_def references_total_def)
  from pbr_FinishOutput_eq [of vs] obtain m where
    fin: "pbr_FinishOutput vs = (vs\<lparr>currReferences := []\<rparr>, Inr m)"
    and size: "BlobReferenceSize m = referenceSize_loop (currReferences vs) 0" by blast
  from size sizes have "BlobReferenceSize m = 12"
    by (simp add: referenceSize_loop_eq references_total_def)
  moreover have "\<not> totalValueSize_invariant (vs\<lparr>currReferences := []\<rparr>)"
    using total by (simp add: totalValueSize_invariant_def references_total_def)
  ultimately show ?thesis
    using run inv fin total by (auto simp: pbr_EstimatedReferenceSize_def)
qed

section \<open>Properties of the footer\<close>

lemma bit_128_iff: "bit (128 :: int) n \<longleftrightarrow> n = 7"
proof -
  have "(128 :: int) = 2 ^ 7" by simp
  then show ?thesis by (simp only: bit_exp_iff) simp
qed

lemma bit_127_iff: "bit (127 :: int) n \<longleftrightarrow> n < 7"
proof -
  have "(127 :: int) = mask 7" by (simp add: mask_eq_exp_minus_1)
  then show ?thesis by (simp only: bit_mask_iff) simp
qed

lemma varint_continue_byte:
  fixes x :: uint64
  shows "\<not> ((ucast x OR 0x80 :: byte) < 0x80)"
    and "(ucast ((ucast x OR 0x80 :: byte) AND 0x7f) :: uint64) = take_bit 7 x"
proof -
  have "(0x80 :: byte) \<le> ucast x OR 0x80"
    by (metis word_bw_comms(2) le_word_or2)
  then show "\<not> ((ucast x OR 0x80 :: byte) < 0x80)" by simp
  show "(ucast ((ucast x OR 0x80 :: byte) AND 0x7f) :: uint64) = take_bit 7 x"
    by (rule bit_word_eqI) (auto simp add: bit_simps bit_128_iff bit_127_iff)
qed

lemma varint_last_byte:
  fixes x :: uint64
  assumes "\<not> x \<ge> 0x80"
  shows "(ucast x :: byte) < 0x80" and "(ucast (ucast x :: byte) :: uint64) = x"
proof -
  from assms have lt: "x < 2 ^ 7" by simp
  then have u: "unat x < 128" by (simp add: word_less_nat_alt)
  have t: "take_bit 7 x = x"
    using less_mask_eq [OF lt] by (simp add: take_bit_eq_mask)
  have "(ucast (ucast (take_bit 7 x) :: byte) :: uint64) = take_bit 7 x"
    by (rule bit_word_eqI) (auto simp add: bit_simps)
  then show "(ucast (ucast x :: byte) :: uint64) = x"
    unfolding t .
  have "unat (ucast x :: byte) = unat x"
    using u by (simp add: unsigned_ucast_eq take_bit_nat_eq_self)
  with u show "(ucast x :: byte) < 0x80" by (simp add: word_less_nat_alt)
qed

lemma varint_recombine:
  fixes x acc :: uint64
  shows "(acc OR push_bit s (take_bit 7 x)) OR push_bit (s + 7) (drop_bit 7 x) =
     acc OR push_bit s x"
proof (rule bit_word_eqI)
  fix n assume "n < LENGTH(64)"
  show "bit ((acc OR push_bit s (take_bit 7 x)) OR push_bit (s + 7) (drop_bit 7 x)) n \<longleftrightarrow>
        bit (acc OR push_bit s x) n"
  proof (cases "n < s + 7")
    case True
    then show ?thesis by (auto simp add: bit_simps)
  next
    case False
    then have "7 + (n - (s + 7)) = n - s" by simp
    with False show ?thesis by (auto simp add: bit_simps)
  qed
qed

lemma PutUvarint_continue: "x \<ge> 0x80 \<Longrightarrow> PutUvarint x = (ucast x OR 0x80) # PutUvarint (drop_bit 7 x)"
  by (subst PutUvarint.simps) simp

lemma PutUvarint_last: "\<not> x \<ge> 0x80 \<Longrightarrow> PutUvarint x = [ucast x]"
  by (subst PutUvarint.simps) simp

lemma Uvarint_loop_PutUvarint:
  assumes "unat x < 2 ^ (64 - 7 * i)" and "i \<le> 9"
  shows "Uvarint_loop (PutUvarint x @ rest) i acc (7 * i) =
     (acc OR push_bit (7 * i) x, int i + int (length (PutUvarint x))) \<and>
     i + length (PutUvarint x) \<le> 10"
  using assms
proof (induction x arbitrary: i acc rule: PutUvarint.induct)
  case (1 x)
  show ?case
  proof (cases "x \<ge> 0x80")
    case True
    then have big: "128 \<le> unat x" by (simp add: word_le_nat_alt)
    have i8: "i \<le> 8"
    proof (rule ccontr)
      assume "\<not> i \<le> 8"
      with "1.prems" have "i = 9" by simp
      with "1.prems" big show False by simp
    qed
    have a: "64 - 7 * i = 7 + (57 - 7 * i)" using i8 by simp
    have b: "64 - 7 * (i + 1) = 57 - 7 * i" by simp
    from "1.prems"(1) have "unat x < 2 ^ (57 - 7 * i) * 128"
      unfolding a power_add by simp
    then have "unat x div 128 < 2 ^ (57 - 7 * i)"
      by (rule less_mult_imp_div_less)
    then have bound: "unat (drop_bit 7 x) < 2 ^ (64 - 7 * (i + 1))"
      unfolding b by (simp add: drop_bit_eq_div unat_div)
    from i8 have i9: "i + 1 \<le> 9" by simp
    note IH = "1.IH" [OF True bound i9, of "acc OR push_bit (7 * i) (take_bit 7 x)"]
    have s: "7 * (i + 1) = 7 * i + 7" by simp
    from i8 have ne: "i \<noteq> 10" by simp
    from IH [unfolded s varint_recombine]
    have step: "Uvarint_loop (PutUvarint (drop_bit 7 x) @ rest) (i + 1)
        (acc OR push_bit (7 * i) (take_bit 7 x)) (7 * i + 7) =
        (acc OR push_bit (7 * i) x, int (i + 1) + int (length (PutUvarint (drop_bit 7 x))))"
      and len: "i + 1 + length (PutUvarint (drop_bit 7 x)) \<le> 10" by simp_all
    have "Uvarint_loop (PutUvarint x @ rest) i acc (7 * i) =
        Uvarint_loop (PutUvarint (drop_bit 7 x) @ rest) (i + 1)
          (acc OR push_bit (7 * i) (take_bit 7 x)) (7 * i + 7)"
      using ne by (simp add: PutUvarint_continue [OF True] varint_continue_byte)
    with step len show ?thesis
      by (simp add: PutUvarint_continue [OF True])
  next
    case False
    note b = varint_last_byte [OF False]
    have small: "i = 9 \<Longrightarrow> \<not> (ucast x :: byte) > 1"
    proof -
      assume "i = 9"
      with "1.prems"(1) have "unat x < 2" by simp
      moreover from False have "unat x < 128" by (simp add: word_le_nat_alt)
      then have "unat (ucast x :: byte) = unat x"
        by (simp add: unsigned_ucast_eq take_bit_nat_eq_self)
      ultimately have "unat (ucast x :: byte) < 2" by simp
      then show ?thesis by (simp add: word_less_nat_alt)
    qed
    from "1.prems"(2) have ne: "i \<noteq> 10" by simp
    show ?thesis
      using ne small b "1.prems"(2)
      by (auto simp add: PutUvarint_last [OF False])
  qed
qed

lemma Uvarint_PutUvarint:
  "Uvarint (PutUvarint x @ rest) = (x, int (length (PutUvarint x)))"
proof -
  have "unat x < 2 ^ (64 - 7 * 0)" using unsigned_less [of x] by simp
  from Uvarint_loop_PutUvarint [OF this, of rest 0] show ?thesis
    by (simp add: Uvarint_def)
qed

lemma length_PutUvarint: "0 < length (PutUvarint x) \<and> length (PutUvarint x) \<le> 10"
proof -
  have "unat x < 2 ^ (64 - 7 * 0)" using unsigned_less [of x] by simp
  from Uvarint_loop_PutUvarint [OF this, of "[]" 0]
  have "length (PutUvarint x) \<le> 10" by simp
  moreover have "0 < length (PutUvarint x)"
    by (subst PutUvarint.simps) simp
  ultimately show ?thesis by simp
qed

lemma DecodeHandle_EncodeVarints:
  "DecodeHandle (EncodeVarints h @ rest) = (h, length (EncodeVarints h))"
proof -
  have 1: "Uvarint (PutUvarint (Offset h) @ PutUvarint (Length h) @ rest) =
      (Offset h, int (length (PutUvarint (Offset h))))"
    by (rule Uvarint_PutUvarint)
  have 2: "Uvarint (PutUvarint (Length h) @ rest) = (Length h, int (length (PutUvarint (Length h))))"
    by (rule Uvarint_PutUvarint)
  from length_PutUvarint [of "Offset h"] length_PutUvarint [of "Length h"] 1 2
  show ?thesis
    by (simp add: DecodeHandle_def EncodeVarints_def)
qed

lemma length_EncodeVarints:
  "0 < length (EncodeVarints h) \<and> length (EncodeVarints h) \<le> 20"
  using length_PutUvarint [of "Offset h"] length_PutUvarint [of "Length h"]
  by (simp add: EncodeVarints_def)

lemma copy_at_zeros:
  assumes "pos = length pre" and "length src \<le> k"
  shows "copy_at (pre @ replicate k 0 @ post) pos src =
     pre @ src @ replicate (k - length src) 0 @ post"
  using assms by (simp add: copy_at_def)

lemma length_handle_padding:
  "length (EncodeVarints (metaindexBH f)) + length (EncodeVarints (indexBH f)) +
     length (handle_padding f) = 40"
  using length_EncodeVarints [of "metaindexBH f"] length_EncodeVarints [of "indexBH f"]
  by (simp add: handle_padding_def)

lemma footer_encode_LevelDB:
  assumes "format f = TableFormatLevelDB"
  shows "footer_encode f =
     Inr (EncodeVarints (metaindexBH f) @ EncodeVarints (indexBH f) @ handle_padding f @
          levelDBMagic)"
proof -
  let ?em = "EncodeVarints (metaindexBH f)" and ?ei = "EncodeVarints (indexBH f)"
  from length_EncodeVarints [of "metaindexBH f"] length_EncodeVarints [of "indexBH f"]
  have l: "length ?em \<le> 20" "length ?ei \<le> 20" by simp_all
  define b1 where "b1 = copy_at (replicate 48 0) 0 ?em"
  define b2 where "b2 = copy_at b1 (length ?em) ?ei"
  define b3 where "b3 = copy_at b2 (length b2 - length levelDBMagic) levelDBMagic"
  have enc: "footer_encode f = Inr b3"
    using assms
    by (simp add: footer_encode_def Let_def levelDBFooterLen_def b1_def b2_def b3_def)
  have 1: "b1 = ?em @ replicate (48 - length ?em) 0"
    unfolding b1_def using copy_at_zeros [of 0 "[]" ?em 48 "[]"] l by simp
  have "b2 = ?em @ ?ei @ replicate (48 - length ?em - length ?ei) 0"
    unfolding b2_def 1
    using copy_at_zeros [of "length ?em" ?em ?ei "48 - length ?em" "[]"] l by simp
  also have "replicate (48 - length ?em - length ?ei) 0 = handle_padding f @ replicate 8 (0::byte)"
    using l by (simp add: handle_padding_def flip: replicate_add)
  finally have 2: "b2 = (?em @ ?ei @ handle_padding f) @ replicate 8 0 @ []" by simp
  with length_handle_padding [of f] have l2: "length b2 - length levelDBMagic = 40"
    by (simp add: levelDBMagic_def)
  have "b3 = (?em @ ?ei @ handle_padding f) @ levelDBMagic @
      replicate (8 - length levelDBMagic) 0 @ []"
    unfolding b3_def l2 unfolding 2
    using length_handle_padding [of f]
    by (intro copy_at_zeros) (simp_all add: levelDBMagic_def)
  then show ?thesis
    unfolding enc by (simp add: levelDBMagic_def)
qed

lemma footer_encode_RocksDB:
  assumes "AsTuple (format f) = Some (magic, version)"
    and "magic = rocksDBMagic \<or> magic = pebbleDBMagic"
    and "checksum f = ChecksumTypeCRC32c \<or> checksum f = ChecksumTypeXXHash64"
  shows "footer_encode f =
     Inr ([checksum f] @ EncodeVarints (metaindexBH f) @ EncodeVarints (indexBH f) @
          handle_padding f @ LittleEndian_PutUint32 version @ magic)"
proof -
  let ?em = "EncodeVarints (metaindexBH f)" and ?ei = "EncodeVarints (indexBH f)"
  from length_EncodeVarints [of "metaindexBH f"] length_EncodeVarints [of "indexBH f"]
  have l: "length ?em \<le> 20" "length ?ei \<le> 20" by simp_all
  from assms(2) have lm: "length magic = 8" and nl: "magic \<noteq> levelDBMagic"
    by (auto simp: rocksDBMagic_def pebbleDBMagic_def levelDBMagic_def)
  define b0 where "b0 = (replicate 53 (0::byte))[0 := checksum f]"
  define b1 where "b1 = copy_at b0 1 ?em"
  define b2 where "b2 = copy_at b1 (1 + length ?em) ?ei"
  define b3 where "b3 = copy_at b2 41 (LittleEndian_PutUint32 version)"
  define b4 where "b4 = copy_at b3 (length b3 - length rocksDBMagic) magic"
  have enc: "footer_encode f = Inr b4"
    using assms nl
    by (auto simp add: footer_encode_def Let_def rocksDBFooterLen_def rocksDBVersionOffset_def
        rocksDBMagicOffset_def blockHandleMaxLenWithoutProperties_def rocksDBMagic_def
        b0_def b1_def b2_def b3_def b4_def
        ChecksumTypeCRC32c_def ChecksumTypeXXHash64_def)
  have 0: "b0 = [checksum f] @ replicate 52 0 @ []"
    unfolding b0_def by (simp add: numeral_eq_Suc)
  have 1: "b1 = [checksum f] @ ?em @ replicate (52 - length ?em) 0"
    unfolding b1_def 0
    using copy_at_zeros [of 1 "[checksum f]" ?em 52 "[]"] l by simp
  have "b2 = ([checksum f] @ ?em) @ ?ei @ replicate (52 - length ?em - length ?ei) 0 @ []"
    unfolding b2_def 1
    using copy_at_zeros [of "1 + length ?em" "[checksum f] @ ?em" ?ei "52 - length ?em" "[]"] l
    by simp
  also have "replicate (52 - length ?em - length ?ei) 0 = handle_padding f @ replicate 12 (0::byte)"
    using l by (simp add: handle_padding_def flip: replicate_add)
  finally have 2: "b2 = ([checksum f] @ ?em @ ?ei @ handle_padding f) @ replicate 12 0 @ []"
    by simp
  have "b3 = ([checksum f] @ ?em @ ?ei @ handle_padding f) @ LittleEndian_PutUint32 version @
      replicate (12 - length (LittleEndian_PutUint32 version)) 0 @ []"
    unfolding b3_def 2
    using length_handle_padding [of f]
    by (intro copy_at_zeros) (simp_all add: LittleEndian_PutUint32_def)
  then have 3: "b3 = ([checksum f] @ ?em @ ?ei @ handle_padding f @
      LittleEndian_PutUint32 version) @ replicate 8 0 @ []"
    by (simp add: LittleEndian_PutUint32_def)
  with length_handle_padding [of f] have l3: "length b3 - length rocksDBMagic = 45"
    by (simp add: rocksDBMagic_def LittleEndian_PutUint32_def)
  have "b4 = ([checksum f] @ ?em @ ?ei @ handle_padding f @ LittleEndian_PutUint32 version) @
      magic @ replicate (8 - length magic) 0 @ []"
    unfolding b4_def l3 unfolding 3
    using length_handle_padding [of f] lm
    by (intro copy_at_zeros) (simp_all add: LittleEndian_PutUint32_def)
  then show ?thesis
    unfolding enc using lm by simp
qed

lemma Uint32_PutUint32: "LittleEndian_Uint32 (LittleEndian_PutUint32 v) = v"
proof (rule bit_word_eqI)
  fix n assume n: "n < LENGTH(32)"
  consider "n < 8" | "8 \<le> n" "n < 16" | "16 \<le> n" "n < 24" | "24 \<le> n" "n < 32"
    using n by fastforce
  then show "bit (LittleEndian_Uint32 (LittleEndian_PutUint32 v)) n \<longleftrightarrow> bit v n"
  proof cases
    case 1
    then show ?thesis
      by (auto simp add: LittleEndian_Uint32_def LittleEndian_PutUint32_def bit_simps)
  next
    case 2
    then have "8 + (n - 8) = n" by simp
    with 2 show ?thesis
      by (auto simp add: LittleEndian_Uint32_def LittleEndian_PutUint32_def bit_simps)
  next
    case 3
    then have "16 + (n - 16) = n" by simp
    with 3 show ?thesis
      by (auto simp add: LittleEndian_Uint32_def LittleEndian_PutUint32_def bit_simps)
  next
    case 4
    then have "24 + (n - 24) = n" by simp
    with 4 show ?thesis
      by (auto simp add: LittleEndian_Uint32_def LittleEndian_PutUint32_def bit_simps)
  qed
qed

lemma ParseTableFormat_AsTuple:
  "AsTuple fmt = Some (magic, version) \<Longrightarrow> ParseTableFormat magic version = Inr fmt"
  by (cases fmt)
     (auto simp: ParseTableFormat_def levelDBMagic_def rocksDBMagic_def pebbleDBMagic_def
       rocksDBFormatVersion2_def)

lemma handle_within_bounds:
  fixes a b c :: uint64
  assumes "unat a + unat b \<le> unat c"
  shows "\<not> a + b > c"
proof -
  have "unat c < 2 ^ LENGTH(64)" by (rule unsigned_less)
  with assms have "unat a + unat b < 2 ^ LENGTH(64)" by simp
  then have "unat (a + b) = unat a + unat b" by (rule unat_add_lem [THEN iffD1])
  with assms show ?thesis by (simp add: word_less_nat_alt)
qed

lemma parseFooter_handles:
  assumes "parseFooter_magic buf off = Inr (foot, EncodeVarints m @ EncodeVarints i @ rest)"
    and "unat (Offset m) + unat (Length m) \<le> unat fsize"
    and "unat (Offset i) + unat (Length i) \<le> unat fsize"
  shows "parseFooter buf off fsize = Inr (foot\<lparr>metaindexBH := m, indexBH := i\<rparr>)"
  using assms length_EncodeVarints [of m] length_EncodeVarints [of i]
    DecodeHandle_EncodeVarints [of m "EncodeVarints i @ rest"]
    DecodeHandle_EncodeVarints [of i rest]
    handle_within_bounds [OF assms(2)] handle_within_bounds [OF assms(3)]
  by (simp add: parseFooter_def Let_def)

lemma footer_consts:
  "length rocksDBMagic = 8" "length levelDBMagic = 8" "length pebbleDBMagic = 8"
  "levelDBFooterLen = 48" "rocksDBFooterLen = 53" "rocksDBMagicOffset = 45"
  "rocksDBVersionOffset = 41" "levelDBMagicOffset = 40" "minFooterLen = 48" "maxFooterLen = 53"
  by (simp_all add: rocksDBMagic_def levelDBMagic_def pebbleDBMagic_def levelDBFooterLen_def
      rocksDBFooterLen_def rocksDBMagicOffset_def rocksDBVersionOffset_def
      levelDBMagicOffset_def minFooterLen_def maxFooterLen_def
      blockHandleMaxLenWithoutProperties_def)

lemma magics_distinct:
  "rocksDBMagic \<noteq> levelDBMagic" "pebbleDBMagic \<noteq> levelDBMagic" "rocksDBMagic \<noteq> pebbleDBMagic"
  by (simp_all add: rocksDBMagic_def levelDBMagic_def pebbleDBMagic_def)

lemma parseFooter_magic_LevelDB:
  assumes "length buf = 48" and "drop 40 buf = levelDBMagic"
  shows "parseFooter_magic buf off =
     Inr (zero_footer\<lparr>footerBH := \<lparr>Offset = off, Length = 48\<rparr>,
            format := TableFormatLevelDB, checksum := ChecksumTypeCRC32c\<rparr>, buf)"
  using assms
  by (simp add: parseFooter_magic_def Let_def footer_consts zero_footer_def zero_Handle_def)

lemma parseFooter_magic_RocksDB:
  assumes "length buf = 53" and "drop 45 buf = magic"
    and "magic = rocksDBMagic \<or> magic = pebbleDBMagic"
    and "ParseTableFormat magic (LittleEndian_Uint32 (slice buf 41 45)) = Inr fmt"
    and "buf ! 0 = c"
    and "c = ChecksumTypeCRC32c \<or> c = ChecksumTypeXXHash64"
  shows "parseFooter_magic buf off =
     Inr (zero_footer\<lparr>footerBH := \<lparr>Offset = off, Length = 53\<rparr>,
            format := fmt, checksum := c\<rparr>, drop 1 buf)"
proof -
  from assms(3) have nl: "magic \<noteq> levelDBMagic" using magics_distinct by auto
  have ne: "ChecksumTypeCRC32c \<noteq> ChecksumTypeXXHash64"
    by (simp add: ChecksumTypeCRC32c_def ChecksumTypeXXHash64_def)
  show ?thesis
    using assms nl ne
    by (auto simp add: parseFooter_magic_def Let_def footer_consts zero_footer_def zero_Handle_def)
qed

text \<open>
  Claim C9. Round trip: take a footer whose format is one of the recognized table formats,
  whose checksum type is valid for that format, and whose metaindex and index block
  handles lie within a file of size \<open>fsize\<close> (offset plus length, as numbers, at most
  \<open>fsize\<close>). Then \<open>encode\<close> succeeds, and \<open>parseFooter\<close> on the encoded bytes, placed at the
  end of a file of that size, succeeds and gives back the same table format, checksum type,
  metaindex handle and index handle (and the handle of the footer itself).
\<close>

theorem footer_encode_parseFooter_roundtrip:
  assumes "format f \<noteq> TableFormatUnspecified"
    and "checksum_valid_for (format f) (checksum f)"
    and "unat (Offset (metaindexBH f)) + unat (Length (metaindexBH f)) \<le> unat fsize"
    and "unat (Offset (indexBH f)) + unat (Length (indexBH f)) \<le> unat fsize"
  shows "\<exists>buf f'. footer_encode f = Inr buf \<and>
     parseFooter buf (fsize - word_of_nat (length buf)) fsize = Inr f' \<and>
     format f' = format f \<and> checksum f' = checksum f \<and>
     metaindexBH f' = metaindexBH f \<and> indexBH f' = indexBH f \<and>
     footerBH f' = \<lparr>Offset = fsize - word_of_nat (length buf), Length = word_of_nat (length buf)\<rparr>"
proof (cases "format f = TableFormatLevelDB")
  case True
  let ?em = "EncodeVarints (metaindexBH f)" and ?ei = "EncodeVarints (indexBH f)"
  let ?buf = "?em @ ?ei @ handle_padding f @ levelDBMagic"
  let ?off = "fsize - word_of_nat (length ?buf)"
  have enc: "footer_encode f = Inr ?buf" by (rule footer_encode_LevelDB [OF True])
  have len: "length ?buf = 48"
    using length_handle_padding [of f] by (simp add: footer_consts)
  have "drop 40 ?buf = levelDBMagic"
    using length_handle_padding [of f] by simp
  from parseFooter_magic_LevelDB [OF len this, of ?off]
  have "parseFooter ?buf ?off fsize =
      Inr (zero_footer\<lparr>footerBH := \<lparr>Offset = ?off, Length = 48\<rparr>,
             format := TableFormatLevelDB, checksum := ChecksumTypeCRC32c,
             metaindexBH := metaindexBH f, indexBH := indexBH f\<rparr>)"
    using parseFooter_handles [OF _ assms(3,4), of ?buf ?off _ "handle_padding f @ levelDBMagic"]
    by simp
  with enc True assms(2) len show ?thesis
    by (simp add: checksum_valid_for_def)
next
  case False
  with assms(1) obtain magic version where
    t: "AsTuple (format f) = Some (magic, version)" and
    m: "magic = rocksDBMagic \<or> magic = pebbleDBMagic"
    by (cases "format f") auto
  from False assms(2) have c: "checksum f = ChecksumTypeCRC32c \<or> checksum f = ChecksumTypeXXHash64"
    by (simp add: checksum_valid_for_def)
  let ?em = "EncodeVarints (metaindexBH f)" and ?ei = "EncodeVarints (indexBH f)"
  let ?v = "LittleEndian_PutUint32 version"
  let ?buf = "[checksum f] @ ?em @ ?ei @ handle_padding f @ ?v @ magic"
  let ?off = "fsize - word_of_nat (length ?buf)"
  have enc: "footer_encode f = Inr ?buf" by (rule footer_encode_RocksDB [OF t m c])
  from m have lm: "length magic = 8" by (auto simp: footer_consts)
  have l4: "length ?v = 4" by (simp add: LittleEndian_PutUint32_def)
  have len: "length ?buf = 53"
    using length_handle_padding [of f] lm l4 by simp
  have d: "drop 45 ?buf = magic"
    using length_handle_padding [of f] l4 by simp
  have "slice ?buf 41 45 = ?v"
    using length_handle_padding [of f] l4 by (simp add: slice_def)
  then have p: "ParseTableFormat magic (LittleEndian_Uint32 (slice ?buf 41 45)) = Inr (format f)"
    using ParseTableFormat_AsTuple [OF t] by (simp add: Uint32_PutUint32)
  have c0: "?buf ! 0 = checksum f" by simp
  from parseFooter_magic_RocksDB [OF len d m p c0 c, of ?off]
  have "parseFooter ?buf ?off fsize =
      Inr (zero_footer\<lparr>footerBH := \<lparr>Offset = ?off, Length = 53\<rparr>,
             format := format f, checksum := checksum f,
             metaindexBH := metaindexBH f, indexBH := indexBH f\<rparr>)"
    using parseFooter_handles [OF _ assms(3,4), of ?buf ?off _ "handle_padding f @ ?v @ magic"]
    by simp
  with enc len show ?thesis by simp
qed

lemmas footer_eval =
  parseFooter_def parseFooter_magic_def DecodeHandle_def Uvarint_def Let_def footer_consts
  rocksDBMagic_def levelDBMagic_def pebbleDBMagic_def ParseTableFormat_def
  LittleEndian_Uint32_def slice_def zero_footer_def zero_Handle_def
  ChecksumTypeCRC32c_def ChecksumTypeXXHash64_def rocksDBFormatVersion2_def

lemma readFooter_file_too_small:
  assumes "length (contents f) < minFooterLen"
  shows "readFooter f = Inl (Corruption ''pebble/table: invalid table (file size is too small)'')"
proof -
  from assms have n: "length (contents f) < 48" by (simp add: footer_consts)
  then have "sint (word_of_nat (length (contents f)) :: uint64) = int (length (contents f))"
    by (simp add: signed_of_nat signed_take_bit_int_eq_self)
  with n show ?thesis
    by (simp add: readFooter_def Readable_Size_def footer_consts)
qed

lemma parseFooter_magic_bad:
  assumes "length rocksDBMagic \<le> length buf"
    and "drop (length buf - length rocksDBMagic) buf \<notin> recognized_magics"
  shows "parseFooter_magic buf off = Inl (Corruption ''(bad magic number)'')"
  using assms by (simp add: parseFooter_magic_def recognized_magics_def Let_def)

lemma parseFooter_magic_Inr:
  assumes "parseFooter_magic buf off = Inr (foot, rest)"
  shows "(drop (length buf - length rocksDBMagic) buf = levelDBMagic \<and>
          levelDBFooterLen \<le> length buf \<and>
          foot = zero_footer\<lparr>footerBH :=
                   \<lparr>Offset = off + word_of_nat (length buf) - word_of_nat levelDBFooterLen,
                    Length = word_of_nat levelDBFooterLen\<rparr>,
                   format := TableFormatLevelDB, checksum := ChecksumTypeCRC32c\<rparr> \<and>
          rest = drop (length buf - levelDBFooterLen) buf) \<or>
         ((drop (length buf - length rocksDBMagic) buf = rocksDBMagic \<or>
           drop (length buf - length rocksDBMagic) buf = pebbleDBMagic) \<and>
          rocksDBFooterLen \<le> length buf \<and>
          (\<exists>fmt. ParseTableFormat (drop (length buf - length rocksDBMagic) buf)
                  (LittleEndian_Uint32 (slice (drop (length buf - rocksDBFooterLen) buf)
                     rocksDBVersionOffset rocksDBMagicOffset)) = Inr fmt \<and>
                foot = zero_footer\<lparr>footerBH :=
                   \<lparr>Offset = off + word_of_nat (length buf) - word_of_nat rocksDBFooterLen,
                    Length = word_of_nat rocksDBFooterLen\<rparr>,
                   format := fmt,
                   checksum := drop (length buf - rocksDBFooterLen) buf ! 0\<rparr>) \<and>
          (drop (length buf - rocksDBFooterLen) buf ! 0 = ChecksumTypeCRC32c \<or>
           drop (length buf - rocksDBFooterLen) buf ! 0 = ChecksumTypeXXHash64) \<and>
          rest = drop 1 (drop (length buf - rocksDBFooterLen) buf))"
proof -
  have z: "Length (footerBH zero_footer) = 0" by (simp add: zero_footer_def zero_Handle_def)
  show ?thesis
    using assms
    unfolding parseFooter_magic_def Let_def
    by (auto split: if_splits sum.splits simp: zero_footer_def zero_Handle_def)
qed

lemma parseFooter_Inr:
  assumes "parseFooter buf off fsize = Inr f"
  shows "\<exists>foot rest n1 n2. parseFooter_magic buf off = Inr (foot, rest) \<and>
     DecodeHandle rest = (metaindexBH f, n1) \<and> n1 \<noteq> 0 \<and>
     \<not> Offset (metaindexBH f) + Length (metaindexBH f) > fsize \<and>
     DecodeHandle (drop n1 rest) = (indexBH f, n2) \<and> n2 \<noteq> 0 \<and>
     \<not> Offset (indexBH f) + Length (indexBH f) > fsize \<and>
     f = foot\<lparr>metaindexBH := metaindexBH f, indexBH := indexBH f\<rparr>"
  using assms
  unfolding parseFooter_def Let_def
  by (auto split: sum.splits prod.splits if_splits)

lemma parseFooter_bad_magic:
  assumes "length rocksDBMagic \<le> length buf"
    and "drop (length buf - length rocksDBMagic) buf \<notin> recognized_magics"
  shows "parseFooter buf off fsize = Inl (Corruption ''(bad magic number)'')"
  using parseFooter_magic_bad [OF assms] by (simp add: parseFooter_def)

lemma parseFooter_checks_wrapped_sums:
  assumes "parseFooter buf off fsize = Inr f"
  shows "Offset (metaindexBH f) + Length (metaindexBH f) \<le> fsize \<and>
         Offset (indexBH f) + Length (indexBH f) \<le> fsize"
  using parseFooter_Inr [OF assms] by auto

text \<open>
  Claim C4. \<open>readFooter\<close> reports corruption for a file shorter than the minimum footer
  length (\<open>readFooter_file_too_small\<close>), \<open>parseFooter\<close> reports corruption for a magic that
  is not recognized (\<open>parseFooter_bad_magic\<close>), and a footer is returned only if the sums
  \<open>Offset + Length\<close> of both handles, computed in 64 bits, are at most the file size
  (\<open>parseFooter_checks_wrapped_sums\<close>). The sum wraps around: for the 53-byte file
  \<open>overflowing_footer\<close>, whose metaindex handle has offset \<open>2^64 - 1\<close> and length 1, the sum
  is 0 and \<open>readFooter\<close> returns a footer, although offset plus length exceeds the file
  size.
\<close>

theorem readFooter_accepts_wrapping_handle:
  "readFooter \<lparr>contents = overflowing_footer, read_fails = None\<rparr> =
     Inr \<lparr>format = TableFormatPebblev1, checksum = ChecksumTypeCRC32c,
          metaindexBH = \<lparr>Offset = 0xffffffffffffffff, Length = 1\<rparr>,
          indexBH = \<lparr>Offset = 0, Length = 0\<rparr>,
          footerBH = \<lparr>Offset = 0, Length = 53\<rparr>\<rparr> \<and>
   length overflowing_footer = 53 \<and>
   unat (0xffffffffffffffff :: uint64) + unat (1 :: uint64) > length overflowing_footer"
proof -
  have l: "length overflowing_footer = 53"
    by (simp add: overflowing_footer_def pebbleDBMagic_def)
  have p: "parseFooter overflowing_footer 0 53 =
     Inr \<lparr>format = TableFormatPebblev1, checksum = ChecksumTypeCRC32c,
          metaindexBH = \<lparr>Offset = 0xffffffffffffffff, Length = 1\<rparr>,
          indexBH = \<lparr>Offset = 0, Length = 0\<rparr>,
          footerBH = \<lparr>Offset = 0, Length = 53\<rparr>\<rparr>"
    by (simp add: overflowing_footer_def footer_eval)
  show ?thesis
    using l p by (simp add: readFooter_def Readable_Size_def ReadAt_def footer_consts)
qed

lemma example_footers_parse:
  "parseFooter example_leveldb_footer 99952 100000 =
     Inr \<lparr>format = TableFormatLevelDB, checksum = ChecksumTypeCRC32c,
          metaindexBH = \<lparr>Offset = 300, Length = 70000\<rparr>,
          indexBH = \<lparr>Offset = 5, Length = 65535\<rparr>,
          footerBH = \<lparr>Offset = 99952, Length = 48\<rparr>\<rparr>"
  "parseFooter example_rocksdb_footer 99947 100000 =
     Inr \<lparr>format = TableFormatRocksDBv2, checksum = ChecksumTypeCRC32c,
          metaindexBH = \<lparr>Offset = 300, Length = 70000\<rparr>,
          indexBH = \<lparr>Offset = 5, Length = 65535\<rparr>,
          footerBH = \<lparr>Offset = 99947, Length = 53\<rparr>\<rparr>"
  "parseFooter example_pebbledb_footer 99947 100000 =
     Inr \<lparr>format = TableFormatPebblev2, checksum = ChecksumTypeCRC32c,
          metaindexBH = \<lparr>Offset = 300, Length = 70000\<rparr>,
          indexBH = \<lparr>Offset = 5, Length = 65535\<rparr>,
          footerBH = \<lparr>Offset = 99947, Length = 53\<rparr>\<rparr>"
  by (simp_all add: example_leveldb_footer_def example_rocksdb_footer_def
      example_pebbledb_footer_def example_handles_def footer_eval)

text \<open>
  Claim C8, as stated, fails: the three magics do not select three footer layouts or
  sizes. A footer with the RocksDB magic and the same bytes with the Pebble magic are both
  read with the 53-byte layout (the LevelDB one with the 48-byte layout): two layouts
  for three magics.
\<close>

theorem three_magics_two_footer_lengths:
  "parseFooter example_leveldb_footer 99952 100000 =
     Inr \<lparr>format = TableFormatLevelDB, checksum = ChecksumTypeCRC32c,
          metaindexBH = \<lparr>Offset = 300, Length = 70000\<rparr>,
          indexBH = \<lparr>Offset = 5, Length = 65535\<rparr>,
          footerBH = \<lparr>Offset = 99952, Length = 48\<rparr>\<rparr> \<and>
   parseFooter example_rocksdb_footer 99947 100000 =
     Inr \<lparr>format = TableFormatRocksDBv2, checksum = ChecksumTypeCRC32c,
          metaindexBH = \<lparr>Offset = 300, Length = 70000\<rparr>,
          indexBH = \<lparr>Offset = 5, Length = 65535\<rparr>,
          footerBH = \<lparr>Offset = 99947, Length = 53\<rparr>\<rparr> \<and>
   parseFooter example_pebbledb_footer 99947 100000 =
     Inr \<lparr>format = TableFormatPebblev2, checksum = ChecksumTypeCRC32c,
          metaindexBH = \<lparr>Offset = 300, Length = 70000\<rparr>,
          indexBH = \<lparr>Offset = 5, Length = 65535\<rparr>,
          footerBH = \<lparr>Offset = 99947, Length = 53\<rparr>\<rparr> \<and>
   drop 40 example_leveldb_footer = levelDBMagic \<and>
   drop 45 example_rocksdb_footer = rocksDBMagic \<and>
   drop 45 example_pebbledb_footer = pebbleDBMagic \<and>
   rocksDBMagic \<noteq> pebbleDBMagic \<and>
   take 45 example_rocksdb_footer = take 45 example_pebbledb_footer"
proof -
  have "drop 40 example_leveldb_footer = levelDBMagic"
    "drop 45 example_rocksdb_footer = rocksDBMagic"
    "drop 45 example_pebbledb_footer = pebbleDBMagic"
    "take 45 example_rocksdb_footer = take 45 example_pebbledb_footer"
    by (simp_all add: example_leveldb_footer_def example_rocksdb_footer_def
        example_pebbledb_footer_def example_handles_def)
  with example_footers_parse magics_distinct show ?thesis by simp
qed

text \<open>
  Claim C8, amended. On a buffer that holds at least a magic, \<open>parseFooter\<close> recognizes
  exactly three magics, and they select two footer layouts. A magic other than the three
  gives the corruption error "bad magic number". A footer is returned only for one of the
  three magics: with the LevelDB magic it is read with the 48-byte legacy layout (format
  LevelDB, checksum type CRC32c without reading a byte, handles from the start of the
  footer); with the RocksDB magic and with the Pebble magic alike it is read with the
  53-byte layout (checksum type from the leading byte, format from the magic and the
  4-byte version field, handles after the checksum byte).
\<close>

theorem parseFooter_two_layouts:
  assumes "length rocksDBMagic \<le> length buf"
    and "magic = drop (length buf - length rocksDBMagic) buf"
    and "fbuf = drop (length buf - rocksDBFooterLen) buf"
  shows "case parseFooter buf off fsize of
       Inl err \<Rightarrow> magic \<notin> recognized_magics \<longrightarrow> err = Corruption ''(bad magic number)''
     | Inr f \<Rightarrow>
        (magic = levelDBMagic \<and> levelDBFooterLen \<le> length buf \<and>
         Length (footerBH f) = 48 \<and> format f = TableFormatLevelDB \<and>
         checksum f = ChecksumTypeCRC32c \<and>
         metaindexBH f = fst (DecodeHandle (drop (length buf - levelDBFooterLen) buf))) \<or>
        ((magic = rocksDBMagic \<or> magic = pebbleDBMagic) \<and> rocksDBFooterLen \<le> length buf \<and>
         Length (footerBH f) = 53 \<and>
         ParseTableFormat magic
           (LittleEndian_Uint32 (slice fbuf rocksDBVersionOffset rocksDBMagicOffset)) =
           Inr (format f) \<and>
         checksum f = fbuf ! 0 \<and>
         metaindexBH f = fst (DecodeHandle (drop 1 fbuf)))"
proof (cases "parseFooter buf off fsize")
  case (Inl err)
  show ?thesis
  proof (cases "magic \<in> recognized_magics")
    case True
    with Inl show ?thesis by simp
  next
    case False
    with parseFooter_bad_magic [OF assms(1), of off fsize] assms(2) Inl show ?thesis by simp
  qed
next
  case (Inr f)
  from parseFooter_Inr [OF Inr] obtain foot rest n1 where
    m: "parseFooter_magic buf off = Inr (foot, rest)" and
    d: "DecodeHandle rest = (metaindexBH f, n1)" and
    f: "f = foot\<lparr>metaindexBH := metaindexBH f, indexBH := indexBH f\<rparr>" by blast
  from f have eqs: "format f = format foot" "checksum f = checksum foot"
    "footerBH f = footerBH foot"
    by (metis footer.select_convs footer.surjective footer.update_convs)+
  from parseFooter_magic_Inr [OF m] d eqs show ?thesis
    unfolding Inr assms(2,3)
    by (auto simp: footer_consts)
qed

theorem parseFooter_two_layouts_witness:
  "length rocksDBMagic \<le> length example_pebbledb_footer \<and>
   (\<exists>f. parseFooter example_pebbledb_footer 99947 100000 = Inr f \<and>
        drop 45 example_pebbledb_footer = pebbleDBMagic \<and>
        Length (footerBH f) = 53 \<and> checksum f = example_pebbledb_footer ! 0 \<and>
        ParseTableFormat pebbleDBMagic
          (LittleEndian_Uint32 (slice example_pebbledb_footer 41 45)) = Inr (format f)) \<and>
   length rocksDBMagic \<le> length (replicate 45 (0 :: byte) @ [1, 2, 3, 4, 5, 6, 7, 8]) \<and>
   drop 45 (replicate 45 (0 :: byte) @ [1, 2, 3, 4, 5, 6, 7, 8]) \<notin> recognized_magics \<and>
   parseFooter (replicate 45 0 @ [1, 2, 3, 4, 5, 6, 7, 8]) 0 53 =
     Inl (Corruption ''(bad magic number)'')"
proof -
  have l: "length example_pebbledb_footer = 53"
    by (simp add: example_pebbledb_footer_def example_handles_def pebbleDBMagic_def)
  have m: "drop 45 example_pebbledb_footer = pebbleDBMagic"
    by (simp add: example_pebbledb_footer_def example_handles_def)
  have h1: "length rocksDBMagic \<le> length example_pebbledb_footer"
    by (simp add: l footer_consts)
  have h2: "pebbleDBMagic = drop (length example_pebbledb_footer - length rocksDBMagic)
      example_pebbledb_footer"
    by (simp add: l footer_consts m)
  have h3: "example_pebbledb_footer =
      drop (length example_pebbledb_footer - rocksDBFooterLen) example_pebbledb_footer"
    by (simp add: l footer_consts)
  from parseFooter_two_layouts [OF h1 h2 h3, of 99947 100000] example_footers_parse(3)
    magics_distinct
  have a: "\<exists>f. parseFooter example_pebbledb_footer 99947 100000 = Inr f \<and>
        drop 45 example_pebbledb_footer = pebbleDBMagic \<and>
        Length (footerBH f) = 53 \<and> checksum f = example_pebbledb_footer ! 0 \<and>
        ParseTableFormat pebbleDBMagic
          (LittleEndian_Uint32 (slice example_pebbledb_footer 41 45)) = Inr (format f)"
    by (simp add: m footer_consts)
  let ?z = "replicate 45 (0 :: byte) @ [1, 2, 3, 4, 5, 6, 7, 8]"
  have z1: "length rocksDBMagic \<le> length ?z" by (simp add: footer_consts)
  have z2: "drop 45 ?z = drop (length ?z - length rocksDBMagic) ?z" by (simp add: footer_consts)
  have z3: "drop 45 ?z \<notin> recognized_magics"
    by (simp add: recognized_magics_def levelDBMagic_def rocksDBMagic_def pebbleDBMagic_def)
  from z3 have z4: "drop 45 ?z \<noteq> levelDBMagic" "drop 45 ?z \<noteq> rocksDBMagic"
    "drop 45 ?z \<noteq> pebbleDBMagic"
    by (simp_all add: recognized_magics_def)
  from parseFooter_two_layouts [OF z1 z2 refl, of 0 53] z3 z4
  have b: "parseFooter ?z 0 53 = Inl (Corruption ''(bad magic number)'')"
    by (cases "parseFooter ?z 0 53") auto
  from h1 a z1 z3 b show ?thesis by blast
qed

theorem footer_encode_parseFooter_roundtrip_witness:
  "format example_footer \<noteq> TableFormatUnspecified \<and>
   checksum_valid_for (format example_footer) (checksum example_footer) \<and>
   unat (Offset (metaindexBH example_footer)) + unat (Length (metaindexBH example_footer))
     \<le> unat (100000 :: uint64) \<and>
   unat (Offset (indexBH example_footer)) + unat (Length (indexBH example_footer))
     \<le> unat (100000 :: uint64) \<and>
   (\<exists>buf f'. footer_encode example_footer = Inr buf \<and>
      parseFooter buf (100000 - word_of_nat (length buf)) 100000 = Inr f' \<and>
      format f' = TableFormatPebblev3 \<and> checksum f' = ChecksumTypeXXHash64 \<and>
      metaindexBH f' = \<lparr>Offset = 300, Length = 70000\<rparr> \<and>
      indexBH f' = \<lparr>Offset = 5, Length = 65535\<rparr>)"
proof -
  have h1: "format example_footer \<noteq> TableFormatUnspecified"
    and h2: "checksum_valid_for (format example_footer) (checksum example_footer)"
    and h3: "unat (Offset (metaindexBH example_footer)) +
        unat (Length (metaindexBH example_footer)) \<le> unat (100000 :: uint64)"
    and h4: "unat (Offset (indexBH example_footer)) + unat (Length (indexBH example_footer))
        \<le> unat (100000 :: uint64)"
    by (simp_all add: example_footer_def checksum_valid_for_def)
  from footer_encode_parseFooter_roundtrip [OF h1 h2 h3 h4]
  obtain buf f' where "footer_encode example_footer = Inr buf"
    "parseFooter buf (100000 - word_of_nat (length buf)) 100000 = Inr f'"
    "format f' = format example_footer" "checksum f' = checksum example_footer"
    "metaindexBH f' = metaindexBH example_footer" "indexBH f' = indexBH example_footer"
    by blast
  then have "\<exists>buf f'. footer_encode example_footer = Inr buf \<and>
      parseFooter buf (100000 - word_of_nat (length buf)) 100000 = Inr f' \<and>
      format f' = TableFormatPebblev3 \<and> checksum f' = ChecksumTypeXXHash64 \<and>
      metaindexBH f' = \<lparr>Offset = 300, Length = 70000\<rparr> \<and>
      indexBH f' = \<lparr>Offset = 5, Length = 65535\<rparr>"
    by (auto simp: example_footer_def)
  with h1 h2 h3 h4 show ?thesis by blast
qed

section \<open>Properties of the merging iterator\<close>

lemma set_insert_by_key: "set (insert_by_key e xs) = insert e (set xs)"
  by (induction xs) auto

lemma set_sort_by_key: "set (sort_by_key xs) = set xs"
  by (induction xs) (auto simp: set_insert_by_key)

text \<open>
  Whatever the iterator surfaces is a visible point key of one of the files, of a kind
  that carries a value, newest for its user key and not covered by a newer visible range
  deletion.
\<close>

lemma surfaced_sound:
  assumes "(userKey, v) \<in> set (surfaced S files)"
  shows "\<exists>k. (k, v) \<in> set (concat (map sf_points files)) \<and> UserKey k = userKey \<and>
     visible S k \<and> \<not> invisible_marker (Kind k) \<and>
     \<not> shadowed S (concat (map sf_rangeDels files)) k"
  using assms
  unfolding surfaced_def Let_def set_sort_by_key
  by force

lemmas iter_eval =
  NewMergingIter_def surfaced_def visible_def shadowed_def covers_def newest_of_def
  invisible_marker_def iter_First_def iter_Next_def iter_current_def Let_def
  file_1_def file_2_def file_3_def set_kv_def SeqNumMax_def

text \<open>
  Claim C5. Over file 1 (\<open>b:b\<close>, \<open>c:c\<close> at sequence numbers 1 and 2) and file 2 (the range
  deletion \<open>[c, z)\<close> at sequence number 3), seeking to first and stepping yields \<open>b:b\<close> and
  then exhaustion: the iterator surfaces \<open>b:b\<close> only, while over file 1 alone it surfaces
  \<open>c:c\<close> as well.
\<close>

theorem rangedel_shadows_older_point_key:
  "run_iter (NewMergingIter [file_2, file_1] SeqNumMax) [OpFirst, OpNext] =
     [Some ([98], [98]), None] \<and>
   surfaced SeqNumMax [file_2, file_1] = [([98], [98])] \<and>
   surfaced SeqNumMax [file_1] = [([98], [98]), ([99], [99])]"
  by (simp add: iter_eval)

text \<open>
  Claim C6. With file 3 (\<open>a:a\<close>, \<open>f:f\<close> at sequence numbers 4 and 5) added, iterating from
  first yields \<open>a:a\<close>, \<open>b:b\<close>, \<open>f:f\<close> and then exhaustion: \<open>f\<close> lies in \<open>[c, z)\<close> but is newer than
  the range deletion, so it is not shadowed, while \<open>c\<close> still is.
\<close>

theorem newer_point_keys_not_shadowed:
  "run_iter (NewMergingIter [file_3, file_2, file_1] SeqNumMax)
     [OpFirst, OpNext, OpNext, OpNext] =
     [Some ([97], [97]), Some ([98], [98]), Some ([102], [102]), None] \<and>
   surfaced SeqNumMax [file_3, file_2, file_1] = [([97], [97]), ([98], [98]), ([102], [102])] \<and>
   covers \<lparr>rd_Start = [99], rd_End = [122], rd_SeqNum = 3\<rparr> [102]"
  by (simp add: iter_eval)

end
